theory Spec2Isabelle
  imports Complex_Main
begin

section \<open>The sermon client of \<^verbatim>\<open>src/lib/api.ts\<close>\<close>

text \<open>
  The module exports one asynchronous function, \<^verbatim>\<open>generateKhutba\<close>, which posts a purpose
  string to a remote service, retries some failures, and degrades to a bundled sample sermon.
  Everything the function reads from outside (the connectivity flag, the outcome of each
  \<^verbatim>\<open>fetch\<close> call, the draw of \<^verbatim>\<open>Math.random\<close>, the engine's upper-casing of a string) is
  gathered in a record \<open>env\<close>; every
  \<^verbatim>\<open>throw\<close> is a value of a sum type; the retry loop is a recursive function on the loop's
  variables. The function's optional abort signal and its 30 second timer only act through
  the outcome of \<^verbatim>\<open>fetch\<close> (a rejection whose message names the abort), so they are part of
  \<open>fetch\<close> here. Console output and toasts do not influence the returned value and are left
  out, except for the error that the outer handler logs, which is kept in \<open>caught\<close>.
\<close>

subsection \<open>JavaScript strings\<close>

text \<open>
  Strings are \<^typ>\<open>string\<close>, one \<^typ>\<open>char\<close> for each code unit. Prefix test, substring test,
  concatenation, \<^verbatim>\<open>charAt\<close> and \<^verbatim>\<open>slice\<close> work unit by unit. \<^verbatim>\<open>toLowerCase\<close> is applied by the
  source only to look for markers made of ASCII letters; it is modelled on the letters A to Z.
  \<^verbatim>\<open>toUpperCase\<close>, which the source applies to the first character of the purpose, follows
  the Unicode tables of the engine (it can even lengthen the string) and is a field of the
  surroundings \<open>env\<close> below.
\<close>

definition startsWith :: "string \<Rightarrow> string \<Rightarrow> bool" where
  "startsWith s p = (take (length p) s = p)"

fun includes_str :: "string \<Rightarrow> string \<Rightarrow> bool" where
  "includes_str [] sub = (sub = [])"
| "includes_str (c # cs) sub = (startsWith (c # cs) sub \<or> includes_str cs sub)"

definition upper_letters :: string where
  "upper_letters = ''ABCDEFGHIJKLMNOPQRSTUVWXYZ''"

definition lower_letters :: string where
  "lower_letters = ''abcdefghijklmnopqrstuvwxyz''"

definition lower_char :: "char \<Rightarrow> char" where
  "lower_char c = (case map_of (zip upper_letters lower_letters) c of None \<Rightarrow> c | Some d \<Rightarrow> d)"

definition toLowerCase :: "string \<Rightarrow> string" where
  "toLowerCase s = map lower_char s"

text \<open>\<^verbatim>\<open>s.charAt(0)\<close> is the empty string on an empty \<open>s\<close>; \<^verbatim>\<open>s.slice(1)\<close> drops one character.\<close>

definition charAt0 :: "string \<Rightarrow> string" where
  "charAt0 s = take 1 s"

definition slice1 :: "string \<Rightarrow> string" where
  "slice1 s = drop 1 s"

text \<open>The decimal form of a number inside a template literal.\<close>

fun string_of_nat :: "nat \<Rightarrow> string" where
  "string_of_nat n =
     (if n < 10 then [''0123456789'' ! n]
      else string_of_nat (n div 10) @ [''0123456789'' ! (n mod 10)])"

declare string_of_nat.simps [simp del]

subsection \<open>Numbers\<close>

text \<open>
  A JavaScript number is a binary64 value, and a product is the exact product rounded to
  the nearest such value, ties to the even significand. Finite values are rationals here.
  \<open>round_down\<close> doubles a value below \<open>2 ^ 52\<close> until it has a 53 bit integer part, rounds
  there and scales back; after 1074 doublings the spacing of the subnormal numbers is
  reached. \<open>round_up\<close> halves a value from \<open>2 ^ 53\<close> on. Overflow to infinity is left out: the
  only product of the source is below 3.
\<close>

definition round_half_even :: "rat \<Rightarrow> int" where
  "round_half_even q =
     (let f = \<lfloor>q\<rfloor>; d = q - of_int f
      in if d < 1 / 2 then f else if 1 / 2 < d then f + 1 else if even f then f else f + 1)"

fun round_down :: "nat \<Rightarrow> rat \<Rightarrow> rat" where
  "round_down n x =
     (if n = 0 \<or> 2 ^ 52 \<le> x then of_int (round_half_even x)
      else round_down (n - 1) (2 * x) / 2)"

fun round_up :: "nat \<Rightarrow> rat \<Rightarrow> rat" where
  "round_up n x =
     (if n = 0 \<or> x < 2 ^ 53 then of_int (round_half_even x)
      else 2 * round_up (n - 1) (x / 2))"

declare round_down.simps [simp del] round_up.simps [simp del]

definition binary64 :: "rat \<Rightarrow> rat" where
  "binary64 x =
     (if x < 0 then - (if 2 ^ 53 \<le> - x then round_up 971 (- x) else round_down 1074 (- x))
      else if 2 ^ 53 \<le> x then round_up 971 x else round_down 1074 x)"

subsection \<open>Data\<close>

datatype error_type = Network | Server | Auth | Other

text \<open>
  The interface \<^verbatim>\<open>Sermon\<close>. The source declares \<^verbatim>\<open>audio_url\<close> a string, yet tests it for
  presence (\<^verbatim>\<open>if (data.audio_url)\<close>), so a payload may lack it: the field is optional here.
  The field \<^verbatim>\<open>text\<close> is called \<open>sermon_text\<close>.
\<close>

record Sermon =
  audio_url :: "string option"
  sermon_text :: string
  title :: string
  fullAudioUrl :: "string option"
  purpose :: "string option"
  errorType :: "error_type option"

definition API_BASE_URL :: string where
  "API_BASE_URL = ''https://islamicaudio.techrealm.online''"

definition sample_audio_url :: string where
  "sample_audio_url =
     ''/audio/the-transformative-power-of-patience-a-journey-of-self-discovery-and-unity_with_background.wav''"

definition sample_fullAudioUrl :: string where
  "sample_fullAudioUrl =
     ''https://islamicaudio.techrealm.online/audio/the-transformative-power-of-patience-a-journey-of-self-discovery-and-unity_with_background.wav''"

definition sample_text_0 :: string where
  "sample_text_0 = ''In the name of Allah, the Most Gracious, the Most Merciful. Today, we reflect on the virtue of patience in Islam. Patience, or 'sabr' in Arabic, is mentioned over 90 times in the Quran, highlighting its significance in our faith. The Prophet Muhammad (peace be upon him) said, 'Patience is light.' Through patience, we find strength in hardship, clarity in confusion, and peace in turmoil. Let us remember that Allah is with those who are patient, as mentioned in Surah Al-Baqarah: 'O you who have believed, seek help through patience and prayer. Indeed, Allah is with the patient.' As we face life's challenges, let us cultivate patience in our hearts, knowing that with every difficulty comes ease.''"

definition sample_text_1 :: string where
  "sample_text_1 = ''Bismillah. The Prophet Muhammad (peace be upon him) said: 'The strong person is not the one who overcomes people with his strength, but the one who controls himself when angry.' Today we explore how controlling our anger leads to inner peace and stronger community bonds. Through mindfulness and remembrance of Allah, we can transform anger into patience and understanding. Remember the words from the Quran: 'Those who spend (in Allah's way) in prosperity and in adversity, who restrain anger and pardon people. And Allah loves the doers of good.'' @ [CHR 0x27]"

definition sample_text_2 :: string where
  "sample_text_2 = ''In the name of Allah, the Most Compassionate, the Most Merciful. Gratitude (shukr) is central to our faith. The Quran repeatedly reminds us, 'If you are grateful, I will surely increase you [in favor].' By recognizing and appreciating Allah's countless blessings, we cultivate contentment and resilience. Gratitude transforms our perspective, allowing us to see challenges as opportunities for growth rather than obstacles. Let us practice gratitude daily through our prayers, actions, and interactions with others.''"

definition sampleSermon :: Sermon where
  "sampleSermon =
     \<lparr>audio_url = Some sample_audio_url,
      sermon_text = sample_text_0,
      title = ''The Virtue of Patience in Islam'',
      fullAudioUrl = Some sample_fullAudioUrl,
      purpose = None,
      errorType = None\<rparr>"

definition sampleSermons :: "Sermon list" where
  "sampleSermons =
     [sampleSermon,
      \<lparr>audio_url = Some sample_audio_url,
       sermon_text = sample_text_1,
       title = ''Managing Anger: The Islamic Approach to Emotional Control'',
       fullAudioUrl = Some sample_fullAudioUrl,
       purpose = None,
       errorType = None\<rparr>,
      \<lparr>audio_url = Some sample_audio_url,
       sermon_text = sample_text_2,
       title = ''The Power of Gratitude in Islamic Tradition'',
       fullAudioUrl = Some sample_fullAudioUrl,
       purpose = None,
       errorType = None\<rparr>]"

text \<open>
  What a \<^verbatim>\<open>catch\<close> clause can receive: an \<^verbatim>\<open>Error\<close> object with its message, or any other
  thrown value.
\<close>

datatype thrown = JsError (message: string) | NonError

text \<open>
  A response of \<^verbatim>\<open>fetch\<close>: the status line, and what reading the body gives, as text
  (\<^verbatim>\<open>response.text()\<close>) and as parsed JSON (\<^verbatim>\<open>response.json()\<close>, typed \<^verbatim>\<open>Sermon\<close> by the
  source). Either read can reject. \<^verbatim>\<open>response.ok\<close> is true for the statuses 200 to 299.
\<close>

record response =
  status :: nat
  statusText :: string
  body_text :: "thrown + string"
  body_json :: "thrown + Sermon"

definition ok :: "response \<Rightarrow> bool" where
  "ok r = (200 \<le> status r \<and> status r \<le> 299)"

datatype fetch_result = Rejected thrown | Responded response

text \<open>
  The surroundings of one call: \<open>navigator\<close> is \<open>None\<close> where the global is undefined and
  otherwise holds \<^verbatim>\<open>navigator.onLine\<close>; \<open>fetch n\<close> is the outcome of the call of
  \<^verbatim>\<open>fetch\<close> issued after \<open>n\<close> earlier ones; \<open>random\<close> is the value of \<^verbatim>\<open>Math.random()\<close>,
  a binary64 number that the language places in the interval from 0 (included) to 1
  (excluded); \<open>toUpperCase\<close> is \<^verbatim>\<open>String.prototype.toUpperCase\<close> of the engine.
\<close>

record env =
  navigator :: "bool option"
  fetch :: "nat \<Rightarrow> fetch_result"
  random :: rat
  toUpperCase :: "string \<Rightarrow> string"

definition isOnline :: "env \<Rightarrow> bool" where
  "isOnline e = (case navigator e of None \<Rightarrow> False | Some onLine \<Rightarrow> onLine)"

subsection \<open>One attempt\<close>

text \<open>The test for an authentication failure on a response that is not ok (lines 105 to 108).\<close>

definition auth_response :: "response \<Rightarrow> string \<Rightarrow> bool" where
  "auth_response r errorData =
     (status r = 401 \<or>
      (errorData \<noteq> [] \<and> includes_str (toLowerCase errorData) ''unauthenticated'') \<or>
      (errorData \<noteq> [] \<and> includes_str (toLowerCase errorData) ''authentication token'') \<or>
      (errorData \<noteq> [] \<and> includes_str (toLowerCase errorData) ''auth''))"

definition server_message :: "response \<Rightarrow> string \<Rightarrow> string" where
  "server_message r errorData =
     ''Server responded with '' @ string_of_nat (status r) @ '': '' @ statusText r @ ''. '' @ errorData"

text \<open>The full audio URL written into a parsed payload (lines 122 to 135).\<close>

definition resolve_audio :: "string option \<Rightarrow> string" where
  "resolve_audio a =
     (case a of
        None \<Rightarrow> ''''
      | Some u \<Rightarrow>
          if u = [] then ''''
          else if startsWith u ''http'' then u
          else API_BASE_URL @ (if startsWith u ''/'' then u else ''/'' @ u))"

text \<open>The payload as it is returned: the purpose stored, the full audio URL written.\<close>

definition on_success :: "string \<Rightarrow> Sermon \<Rightarrow> Sermon" where
  "on_success purp d =
     d\<lparr>purpose := Some purp, fullAudioUrl := Some (resolve_audio (audio_url d))\<rparr>"

text \<open>The body of the inner \<^verbatim>\<open>try\<close> (lines 84 to 137): \<open>Inl\<close> is what it throws.\<close>

definition attempt :: "string \<Rightarrow> fetch_result \<Rightarrow> thrown + Sermon" where
  "attempt purp res =
     (case res of
        Rejected e \<Rightarrow> Inl e
      | Responded r \<Rightarrow>
          if \<not> ok r then
            (case body_text r of
               Inl e \<Rightarrow> Inl e
             | Inr errorData \<Rightarrow>
                 if auth_response r errorData then Inl (JsError ''authentication_required'')
                 else Inl (JsError (server_message r errorData)))
          else
            (case body_json r of
               Inl e \<Rightarrow> Inl e
             | Inr d \<Rightarrow> Inr (on_success purp d)))"

subsection \<open>The retry loop\<close>

definition maxRetries :: nat where
  "maxRetries = 2"

text \<open>The two tests of the inner \<^verbatim>\<open>catch\<close> on the message of the caught error.\<close>

definition auth_message :: "string \<Rightarrow> bool" where
  "auth_message m =
     (m = ''authentication_required'' \<or> includes_str m ''authentication'' \<or>
      includes_str m ''Unauthenticated'')"

definition isNetworkError :: "string \<Rightarrow> bool" where
  "isNetworkError m =
     (includes_str m ''Failed to fetch'' \<or> includes_str m ''Network error'' \<or>
      includes_str m ''network'' \<or> includes_str m ''AbortError'' \<or>
      includes_str m ''timed out'' \<or> includes_str m ''abort'' \<or>
      includes_str m ''Load failed'')"

text \<open>
  The messages on which the inner \<^verbatim>\<open>catch\<close> goes round the loop again while attempts remain:
  it looks for the authentication markers first and for the network markers after.
\<close>

definition retryable :: "string \<Rightarrow> bool" where
  "retryable m = (\<not> auth_message m \<and> isNetworkError m)"

text \<open>
  The variables of the loop, with two logs: \<open>calls\<close> counts the calls of \<^verbatim>\<open>fetch\<close>, and
  \<open>waits\<close> lists the delays, in milliseconds, that the loop has slept.
\<close>

record loop_state =
  retryCount :: nat
  lastError :: "string option"
  calls :: nat
  waits :: "nat list"

definition init_state :: loop_state where
  "init_state = \<lparr>retryCount = 0, lastError = None, calls = 0, waits = []\<rparr>"

definition caught_message :: "thrown \<Rightarrow> string" where
  "caught_message e = (case e of JsError m \<Rightarrow> m | NonError \<Rightarrow> ''Unknown error'')"

text \<open>
  The \<^verbatim>\<open>while\<close> loop with the \<^verbatim>\<open>throw\<close> that follows it (lines 79 to 173). The result is the
  returned payload, or the error that reaches the outer handler.
\<close>

function retry_loop :: "(nat \<Rightarrow> fetch_result) \<Rightarrow> string \<Rightarrow> loop_state \<Rightarrow> (thrown + Sermon) \<times> loop_state" where
  "retry_loop f purp st =
     (if retryCount st \<le> maxRetries then
        (let st1 = st\<lparr>calls := calls st + 1\<rparr> in
         case attempt purp (f (calls st)) of
           Inr d \<Rightarrow> (Inr d, st1)
         | Inl e \<Rightarrow>
             (let m = caught_message e; st2 = st1\<lparr>lastError := Some m\<rparr> in
              if auth_message m then (Inl (JsError m), st2)
              else if isNetworkError m \<and> retryCount st < maxRetries then
                retry_loop f purp
                  (st2\<lparr>retryCount := retryCount st + 1,
                       waits := waits st @ [1000 * 2 ^ (retryCount st + 1)]\<rparr>)
              else (Inl (JsError m), st2)))
      else
        (Inl (JsError (case lastError st of None \<Rightarrow> ''Maximum retries reached'' | Some m \<Rightarrow> m)), st))"
  by pat_completeness auto
termination
  by (relation "measure (\<lambda>(f, purp, st). Suc maxRetries - retryCount st)") auto

declare retry_loop.simps [simp del]

subsection \<open>The outer handler\<close>

text \<open>The error type chosen from the caught error (lines 180 to 222).\<close>

definition classify :: "thrown \<Rightarrow> error_type" where
  "classify e =
     (case e of
        NonError \<Rightarrow> Other
      | JsError m \<Rightarrow>
          if m = ''network_offline'' then Network
          else if m = ''authentication_required'' \<or> includes_str m ''authentication'' \<or>
                  includes_str m ''Unauthenticated'' \<or> includes_str m ''auth token'' then Auth
          else if includes_str m ''Failed to fetch'' \<or> includes_str m ''Network error'' \<or>
                  includes_str m ''network'' \<or> includes_str m ''AbortError'' \<or>
                  includes_str m ''timed out'' \<or> includes_str m ''abort'' \<or>
                  includes_str m ''Load failed'' then Network
          else if includes_str m ''500'' \<or> includes_str m ''503'' \<or>
                  includes_str m ''server'' then Server
          else Other)"

text \<open>
  \<^verbatim>\<open>Math.floor(Math.random() * sampleSermons.length)\<close>, the product being a binary64 product,
  and the read of the table there: outside the table the read gives \<^verbatim>\<open>undefined\<close>.
\<close>

definition randomIndex :: "rat \<Rightarrow> int" where
  "randomIndex r = \<lfloor>binary64 (r * of_nat (length sampleSermons))\<rfloor>"

definition element_at :: "'a list \<Rightarrow> int \<Rightarrow> 'a option" where
  "element_at xs i = (if 0 \<le> i \<and> i < int (length xs) then Some (xs ! nat i) else None)"

text \<open>\<^verbatim>\<open>purpose.charAt(0).toUpperCase() + purpose.slice(1)\<close>, with the engine's upper-casing.\<close>

definition capitalizedPurpose :: "(string \<Rightarrow> string) \<Rightarrow> string \<Rightarrow> string" where
  "capitalizedPurpose upper purp = upper (charAt0 purp) @ slice1 purp"

text \<open>
  The fallback sermon (lines 249 to 267). Reading \<^verbatim>\<open>title\<close> of \<^verbatim>\<open>undefined\<close> throws a
  \<^verbatim>\<open>TypeError\<close> that nothing catches; its message depends on the engine.
\<close>

definition fallback :: "(string \<Rightarrow> string) \<Rightarrow> rat \<Rightarrow> string \<Rightarrow> error_type \<Rightarrow> thrown + Sermon" where
  "fallback upper r purp et =
     (case element_at sampleSermons (randomIndex r) of
        None \<Rightarrow> Inl (JsError ''Cannot read properties of undefined (reading 'title')'')
      | Some fallbackSermon \<Rightarrow>
          Inr (fallbackSermon
                 \<lparr>title := title fallbackSermon @ '' - '' @ capitalizedPurpose upper purp,
                  purpose := Some purp,
                  errorType := Some et\<rparr>))"

subsection \<open>generateKhutba\<close>

text \<open>The outer \<^verbatim>\<open>try\<close> block (lines 53 to 173).\<close>

definition try_block :: "env \<Rightarrow> string \<Rightarrow> (thrown + Sermon) \<times> loop_state" where
  "try_block e purp =
     (if \<not> isOnline e then (Inl (JsError ''network_offline''), init_state)
      else retry_loop (fetch e) purp init_state)"

text \<open>
  One run of the function: the sermon it resolves to, the number of calls of \<^verbatim>\<open>fetch\<close>, the
  delays slept between them, and the error the outer handler caught, if it ran.
\<close>

record run =
  returned :: Sermon
  fetch_calls :: nat
  backoff_waits :: "nat list"
  caught :: "thrown option"

definition generateKhutba :: "env \<Rightarrow> string \<Rightarrow> thrown + run" where
  "generateKhutba e purp =
     (case try_block e purp of
        (Inr d, st) \<Rightarrow>
          Inr \<lparr>returned = d, fetch_calls = calls st, backoff_waits = waits st, caught = None\<rparr>
      | (Inl err, st) \<Rightarrow>
          (case fallback (toUpperCase e) (random e) purp (classify err) of
             Inl t \<Rightarrow> Inl t
           | Inr s \<Rightarrow>
               Inr \<lparr>returned = s, fetch_calls = calls st, backoff_waits = waits st,
                    caught = Some err\<rparr>))"

subsection \<open>The specification's absolute URL\<close>

text \<open>
  This predicate is not taken from the source. The specification calls \<^verbatim>\<open>fullAudioUrl\<close> an
  absolute URL; in the sense of RFC 3986 that is a string that begins with a scheme (a letter,
  then letters, digits, \<^verbatim>\<open>+\<close>, \<^verbatim>\<open>-\<close> or \<^verbatim>\<open>.\<close>) and a colon. The source never tests this: its
  only test is \<^verbatim>\<open>startsWith('http')\<close>.
\<close>

definition letter :: "char \<Rightarrow> bool" where
  "letter c = (c \<in> set lower_letters \<or> c \<in> set upper_letters)"

definition scheme_char :: "char \<Rightarrow> bool" where
  "scheme_char c = (letter c \<or> c \<in> set ''0123456789+-.'')"

definition spec_absolute_url :: "string \<Rightarrow> bool" where
  "spec_absolute_url u =
     (case takeWhile (\<lambda>c. c \<noteq> CHR '':'') u of
        [] \<Rightarrow> False
      | c # cs \<Rightarrow> letter c \<and> list_all scheme_char cs \<and> length (c # cs) < length u)"

subsection \<open>Example surroundings\<close>

text \<open>
  Concrete payloads, responses and surroundings on which the results below are evaluated.
  The upper-casing of the example surroundings agrees with JavaScript on strings of ASCII
  characters, on the sharp s (code unit 223, upper case \<^verbatim>\<open>SS\<close>) and on the e with an acute
  accent (code unit 233, upper case 201).
\<close>

definition upper_char :: "char \<Rightarrow> char" where
  "upper_char c = (case map_of (zip lower_letters upper_letters) c of None \<Rightarrow> c | Some d \<Rightarrow> d)"

definition example_toUpperCase :: "string \<Rightarrow> string" where
  "example_toUpperCase s =
     concat (map (\<lambda>c. if c = CHR 0xDF then ''SS'' else if c = CHR 0xE9 then [CHR 0xC9]
                        else [upper_char c]) s)"

definition payload :: "string option \<Rightarrow> Sermon" where
  "payload a =
     \<lparr>audio_url = a, sermon_text = ''Peace be upon you.'', title = ''On Grief'',
      fullAudioUrl = None, purpose = None, errorType = None\<rparr>"

definition ok_response :: "Sermon \<Rightarrow> response" where
  "ok_response d = \<lparr>status = 200, statusText = ''OK'', body_text = Inr [], body_json = Inr d\<rparr>"

definition error_response :: "nat \<Rightarrow> string \<Rightarrow> string \<Rightarrow> response" where
  "error_response code reason body =
     \<lparr>status = code, statusText = reason, body_text = Inr body,
      body_json = Inl (JsError ''Unexpected token in JSON'')\<rparr>"

definition online_env :: "(nat \<Rightarrow> fetch_result) \<Rightarrow> env" where
  "online_env f =
     \<lparr>navigator = Some True, fetch = f, random = 1 / 2, toUpperCase = example_toUpperCase\<rparr>"

definition offline_env :: env where
  "offline_env =
     \<lparr>navigator = Some False, fetch = (\<lambda>n. Responded (ok_response (payload (Some ''foo.wav'')))),
      random = 1 / 2, toUpperCase = example_toUpperCase\<rparr>"

text \<open>
  Offline surroundings whose draw, three times, is halfway between two binary64 numbers: the
  exact product is \<open>2 - 1 / 2 ^ 53\<close>, and the binary64 product is 2.
\<close>

definition tie_env :: env where
  "tie_env =
     \<lparr>navigator = Some False, fetch = (\<lambda>n. Rejected NonError),
      random = 6004799503160661 / 9007199254740992, toUpperCase = example_toUpperCase\<rparr>"

definition always :: "fetch_result \<Rightarrow> nat \<Rightarrow> fetch_result" where
  "always res n = res"

definition flaky :: "fetch_result \<Rightarrow> nat \<Rightarrow> fetch_result" where
  "flaky res n = (if n < 2 then Rejected (JsError ''Failed to fetch'') else res)"

text \<open>
  A success whose sermon speaks of an authentic saying, with the JSON text of its body.
\<close>

definition quoted :: "string \<Rightarrow> string" where
  "quoted s = CHR 0x22 # s @ [CHR 0x22]"

definition authentic_payload :: Sermon where
  "authentic_payload =
     \<lparr>audio_url = Some ''/audio/a.wav'', sermon_text = ''An authentic saying.'',
      title = ''On Grief'', fullAudioUrl = None, purpose = None, errorType = None\<rparr>"

definition authentic_response :: response where
  "authentic_response =
     \<lparr>status = 200, statusText = ''OK'',
      body_text =
        Inr (''{'' @ quoted ''audio_url'' @ '':'' @ quoted ''/audio/a.wav'' @ '','' @
             quoted ''text'' @ '':'' @ quoted ''An authentic saying.'' @ '','' @
             quoted ''title'' @ '':'' @ quoted ''On Grief'' @ ''}''),
      body_json = Inr authentic_payload\<rparr>"

section \<open>Properties\<close>

subsection \<open>Rounding to binary64\<close>

lemma round_half_even_le: "of_int (round_half_even q) \<le> q + 1 / 2"
proof -
  have "of_int \<lfloor>q\<rfloor> \<le> q" by simp
  moreover have "q < of_int \<lfloor>q\<rfloor> + 1" by linarith
  ultimately show ?thesis
    unfolding round_half_even_def Let_def by (simp split: if_splits) linarith
qed

lemma round_half_even_nonneg: "0 \<le> q \<Longrightarrow> 0 \<le> round_half_even q"
  unfolding round_half_even_def Let_def by (simp split: if_splits)

lemma round_down_nonneg: "0 \<le> x \<Longrightarrow> 0 \<le> round_down n x"
proof (induction n arbitrary: x)
  case 0
  then show ?case by (subst round_down.simps) (simp add: round_half_even_nonneg)
next
  case (Suc n)
  have "0 \<le> round_down n (2 * x)" using Suc.IH [of "2 * x"] Suc.prems by simp
  with Suc.prems show ?case
    by (subst round_down.simps) (simp add: round_half_even_nonneg)
qed

lemma round_down_le_half: "round_down n x \<le> x + 1 / 2"
proof (induction n arbitrary: x)
  case 0
  show ?case using round_half_even_le [of x] by (subst round_down.simps) simp
next
  case (Suc n)
  have "round_down n (2 * x) \<le> 2 * x + 1 / 2" by (rule Suc.IH)
  then have "round_down n (2 * x) / 2 \<le> x + 1 / 2" by simp
  with round_half_even_le [of x] show ?case
    by (subst round_down.simps) simp
qed

lemma round_down_step:
  "n \<noteq> 0 \<Longrightarrow> x < 2 ^ 52 \<Longrightarrow> round_down n x = round_down (n - 1) (2 * x) / 2"
  by (subst round_down.simps) simp

lemma round_down_stop:
  "2 ^ 52 \<le> x \<Longrightarrow> round_down n x = of_int (round_half_even x)"
  by (subst round_down.simps) simp

lemma round_down_error:
  "x * 2 ^ k < 2 ^ 52 \<Longrightarrow> k < n \<Longrightarrow> 0 \<le> x \<Longrightarrow> round_down n x \<le> x + 1 / 2 ^ (k + 2)"
proof (induction k arbitrary: n x)
  case 0
  then have s: "round_down n x = round_down (n - 1) (2 * x) / 2"
    by (intro round_down_step) simp_all
  have "round_down (n - 1) (2 * x) / 2 \<le> (2 * x + 1 / 2) / 2"
    using round_down_le_half [of "n - 1" "2 * x"] by (simp add: divide_right_mono)
  then show ?case unfolding s by simp
next
  case (Suc k)
  have "(1::rat) \<le> 2 ^ Suc k" by (rule one_le_power) simp
  then have "x * 1 \<le> x * 2 ^ Suc k"
    using Suc.prems(3) by (intro mult_left_mono)
  with Suc.prems(1) have lt: "x < 2 ^ 52" by simp
  from Suc.prems(2) have n0: "n \<noteq> 0" by simp
  have s: "round_down n x = round_down (n - 1) (2 * x) / 2"
    using n0 lt by (rule round_down_step)
  have a: "(2 * x) * 2 ^ k < 2 ^ 52" using Suc.prems(1) by (simp add: mult.assoc mult.commute)
  have b: "k < n - 1" using Suc.prems(2) by simp
  have c: "0 \<le> 2 * x" using Suc.prems(3) by simp
  from Suc.IH [OF a b c] have "round_down (n - 1) (2 * x) \<le> 2 * x + 1 / 2 ^ (k + 2)" .
  then have "round_down (n - 1) (2 * x) / 2 \<le> (2 * x + 1 / 2 ^ (k + 2)) / 2"
    by (simp add: divide_right_mono)
  also have "\<dots> = x + 1 / 2 ^ (Suc k + 2)" by (simp add: add_divide_distrib)
  finally show ?case unfolding s .
qed

lemma round_down_scaled:
  "2 ^ 52 \<le> x * 2 ^ k \<Longrightarrow> x * 2 ^ k < 2 ^ 53 \<Longrightarrow> k \<le> n \<Longrightarrow> 0 \<le> x \<Longrightarrow>
   round_down n x = of_int (round_half_even (x * 2 ^ k)) / 2 ^ k"
proof (induction k arbitrary: n x)
  case 0
  then show ?case by (simp add: round_down_stop)
next
  case (Suc k)
  have "(1::rat) \<le> 2 ^ k" by (rule one_le_power) simp
  then have "(2::rat) \<le> 2 ^ Suc k" by simp
  then have "x * 2 \<le> x * 2 ^ Suc k"
    using Suc.prems(4) by (intro mult_left_mono)
  with Suc.prems(2) have "x * 2 < 2 ^ 53" by simp
  then have lt: "x < 2 ^ 52" by simp
  from Suc.prems(3) have n0: "n \<noteq> 0" by simp
  have s: "round_down n x = round_down (n - 1) (2 * x) / 2"
    using n0 lt by (rule round_down_step)
  have e: "(2 * x) * 2 ^ k = x * 2 ^ Suc k" by (simp add: mult.assoc mult.commute)
  have a: "2 ^ 52 \<le> (2 * x) * 2 ^ k" "(2 * x) * 2 ^ k < 2 ^ 53"
    using Suc.prems(1,2) unfolding e by simp_all
  have b: "k \<le> n - 1" using Suc.prems(3) by simp
  have c: "0 \<le> 2 * x" using Suc.prems(4) by simp
  from Suc.IH [OF a b c] show ?case unfolding s e by simp
qed

lemma binary64_below_one:
  assumes "binary64 r = r" and "0 \<le> r" and "r < 1"
  shows "r \<le> 1 - 1 / 2 ^ 53"
proof (cases "r < 1 / 2")
  case True
  have "(1::rat) / 2 ^ 53 \<le> 1 / 2" by simp
  with True show ?thesis by linarith
next
  case False
  have a: "2 ^ 52 \<le> r * 2 ^ 53" using False by simp
  have b: "r * 2 ^ 53 < 2 ^ 53" using assms(3) by simp
  have "binary64 r = round_down 1074 r"
    using assms(2,3) by (simp add: binary64_def)
  also have "\<dots> = of_int (round_half_even (r * 2 ^ 53)) / 2 ^ 53"
    by (rule round_down_scaled [OF a b _ assms(2)]) simp
  finally have "r = of_int (round_half_even (r * 2 ^ 53)) / 2 ^ 53"
    using assms(1) by simp
  then have i: "r * 2 ^ 53 = of_int (round_half_even (r * 2 ^ 53))" by simp
  define K where "K = round_half_even (r * 2 ^ 53)"
  from i b have "(of_int K :: rat) < 2 ^ 53" by (simp add: K_def)
  then have "(of_int K :: rat) < of_int (2 ^ 53)" by simp
  then have "K < 2 ^ 53" by (simp only: of_int_less_iff)
  then have "K \<le> 2 ^ 53 - 1" by simp
  then have "(of_int K :: rat) \<le> of_int (2 ^ 53 - 1)" by (simp only: of_int_le_iff)
  then have "r * 2 ^ 53 \<le> 2 ^ 53 - 1" using i by (simp add: K_def)
  then have "r \<le> (2 ^ 53 - 1) / 2 ^ 53" by (simp add: pos_le_divide_eq)
  also have "((2::rat) ^ 53 - 1) / 2 ^ 53 = 1 - 1 / 2 ^ 53" by (simp add: diff_divide_distrib)
  finally show ?thesis .
qed

lemma product_binary64_range:
  assumes "0 \<le> r" and "r \<le> 1 - 1 / 2 ^ 53"
  shows "0 \<le> \<lfloor>binary64 (r * 3)\<rfloor> \<and> \<lfloor>binary64 (r * 3)\<rfloor> < 3"
proof -
  let ?x = "r * 3"
  have x0: "0 \<le> ?x" using assms(1) by simp
  have x3: "?x \<le> 3 - 3 / 2 ^ 53" using assms(2) by simp
  have x53: "?x < 2 ^ 53" using x3 by simp
  have b: "binary64 ?x = round_down 1074 ?x" using x0 x53 by (simp add: binary64_def)
  have "?x * 2 ^ 50 < 4 * 2 ^ 50" using x3 by simp
  then have s: "?x * 2 ^ 50 < 2 ^ 52" by simp
  from round_down_error [OF s _ x0, of 1074]
  have "round_down 1074 ?x \<le> ?x + 1 / 2 ^ 52" by simp
  with x3 have "round_down 1074 ?x \<le> 3 - 3 / 2 ^ 53 + 1 / 2 ^ 52" by linarith
  also have "\<dots> < 3" by simp
  finally have u: "binary64 ?x < 3" unfolding b .
  have l: "0 \<le> binary64 ?x" unfolding b using x0 by (rule round_down_nonneg)
  from l u show ?thesis by (simp add: floor_less_iff)
qed

subsection \<open>The fallback table\<close>

lemma length_sampleSermons: "length sampleSermons = 3"
  by (simp add: sampleSermons_def)

lemma randomIndex_range:
  assumes "binary64 r = r" and "0 \<le> r" and "r < 1"
  shows "0 \<le> randomIndex r \<and> randomIndex r < 3"
  using product_binary64_range [OF assms(2) binary64_below_one [OF assms]]
  by (simp add: randomIndex_def length_sampleSermons)

lemma binary64_half: "binary64 (1 / 2) = 1 / 2"
  by code_simp

lemma online_env_random: "binary64 (random (online_env f)) = random (online_env f)"
  by (simp add: online_env_def binary64_half)

lemma fallback_returns:
  assumes "binary64 r = r" and "0 \<le> r" and "r < 1"
  shows "\<exists>i<3. randomIndex r = int i \<and>
           fallback upper r purp et =
             Inr ((sampleSermons ! i)
                    \<lparr>title := title (sampleSermons ! i) @ '' - '' @ capitalizedPurpose upper purp,
                     purpose := Some purp, errorType := Some et\<rparr>)"
proof -
  from randomIndex_range [OF assms]
  have rng: "0 \<le> randomIndex r" "randomIndex r < 3" by simp_all
  define i where "i = nat (randomIndex r)"
  with rng have i: "i < 3" "randomIndex r = int i" by simp_all
  then have "element_at sampleSermons (randomIndex r) = Some (sampleSermons ! i)"
    by (simp add: element_at_def length_sampleSermons)
  then show ?thesis using i by (auto simp: fallback_def)
qed

subsection \<open>One round of the retry loop\<close>

lemma retry_loop_exit:
  "\<not> retryCount st \<le> maxRetries \<Longrightarrow>
   retry_loop f purp st =
     (Inl (JsError (case lastError st of None \<Rightarrow> ''Maximum retries reached'' | Some m \<Rightarrow> m)), st)"
  by (subst retry_loop.simps) simp

lemma retry_loop_success:
  "retryCount st \<le> maxRetries \<Longrightarrow> attempt purp (f (calls st)) = Inr d \<Longrightarrow>
   retry_loop f purp st = (Inr d, st\<lparr>calls := calls st + 1\<rparr>)"
  by (subst retry_loop.simps) (simp add: Let_def)

lemma retry_loop_auth:
  "retryCount st \<le> maxRetries \<Longrightarrow> attempt purp (f (calls st)) = Inl e \<Longrightarrow>
   auth_message (caught_message e) \<Longrightarrow>
   retry_loop f purp st =
     (Inl (JsError (caught_message e)),
      st\<lparr>calls := calls st + 1, lastError := Some (caught_message e)\<rparr>)"
  by (subst retry_loop.simps) (simp add: Let_def)

lemma retry_loop_retry:
  "retryCount st < maxRetries \<Longrightarrow> attempt purp (f (calls st)) = Inl e \<Longrightarrow>
   \<not> auth_message (caught_message e) \<Longrightarrow> isNetworkError (caught_message e) \<Longrightarrow>
   retry_loop f purp st =
     retry_loop f purp
       (st\<lparr>calls := calls st + 1, lastError := Some (caught_message e),
           retryCount := retryCount st + 1,
           waits := waits st @ [1000 * 2 ^ (retryCount st + 1)]\<rparr>)"
  by (subst retry_loop.simps) (simp add: Let_def)

lemma retry_loop_throw:
  "retryCount st \<le> maxRetries \<Longrightarrow> attempt purp (f (calls st)) = Inl e \<Longrightarrow>
   \<not> auth_message (caught_message e) \<Longrightarrow>
   \<not> (isNetworkError (caught_message e) \<and> retryCount st < maxRetries) \<Longrightarrow>
   retry_loop f purp st =
     (Inl (JsError (caught_message e)),
      st\<lparr>calls := calls st + 1, lastError := Some (caught_message e)\<rparr>)"
  by (subst retry_loop.simps) (auto simp: Let_def)

lemma retry_loop_inv:
  assumes "retry_loop f purp st = (res, st')"
    and "retryCount st \<le> maxRetries"
    and "calls st = retryCount st"
    and "waits st = map (\<lambda>n. 1000 * 2 ^ (n + 1)) [0..<retryCount st]"
  shows "calls st' = retryCount st' + 1 \<and> retryCount st \<le> retryCount st' \<and>
         retryCount st' \<le> maxRetries \<and>
         waits st' = map (\<lambda>n. 1000 * 2 ^ (n + 1)) [0..<retryCount st']"
  using assms
proof (induction "maxRetries - retryCount st" arbitrary: st rule: less_induct)
  case less
  show ?case
  proof (cases "attempt purp (f (calls st))")
    case (Inr d)
    from retry_loop_success [where f = f and st = st and purp = purp, OF less.prems(2) Inr] less.prems
    show ?thesis by auto
  next
    case (Inl e)
    show ?thesis
    proof (cases "auth_message (caught_message e)")
      case True
      from retry_loop_auth [where f = f and st = st and purp = purp, OF less.prems(2) Inl True] less.prems
      show ?thesis by auto
    next
      case False
      show ?thesis
      proof (cases "isNetworkError (caught_message e) \<and> retryCount st < maxRetries")
        case True
        define st2 where "st2 = st\<lparr>calls := calls st + 1, lastError := Some (caught_message e),
           retryCount := retryCount st + 1,
           waits := waits st @ [1000 * 2 ^ (retryCount st + 1)]\<rparr>"
        from True have lt: "retryCount st < maxRetries" and net: "isNetworkError (caught_message e)"
          by simp_all
        have step: "retry_loop f purp st = retry_loop f purp st2"
          unfolding st2_def by (rule retry_loop_retry [where f = f and st = st and purp = purp, OF lt Inl False net])
        have m: "maxRetries - retryCount st2 < maxRetries - retryCount st"
          using lt by (simp add: st2_def)
        have a: "retry_loop f purp st2 = (res, st')"
          using less.prems(1) step by simp
        have b: "retryCount st2 \<le> maxRetries" using lt by (simp add: st2_def)
        have c: "calls st2 = retryCount st2" using less.prems(3) by (simp add: st2_def)
        have d: "waits st2 = map (\<lambda>n. 1000 * 2 ^ (n + 1)) [0..<retryCount st2]"
          using less.prems(4) by (simp add: st2_def)
        from less.hyps [OF m a b c d]
        show ?thesis by (simp add: st2_def)
      next
        case False
        from retry_loop_throw [where f = f and st = st and purp = purp, OF less.prems(2) Inl \<open>\<not> auth_message (caught_message e)\<close> False]
          less.prems
        show ?thesis by auto
      qed
    qed
  qed
qed

subsection \<open>Reaching an attempt, and where a success comes from\<close>

lemma attempt_ok:
  "ok r \<Longrightarrow> body_json r = Inr d \<Longrightarrow> attempt purp (Responded r) = Inr (on_success purp d)"
  by (simp add: attempt_def)

lemma attempt_Inr:
  assumes "attempt purp res = Inr s"
  shows "\<exists>r d. res = Responded r \<and> ok r \<and> body_json r = Inr d \<and> s = on_success purp d"
  using assms by (auto simp: attempt_def split: fetch_result.splits if_splits sum.splits)

lemma attempt_not_ok:
  "\<not> ok r \<Longrightarrow> body_text r = Inr b \<Longrightarrow>
   attempt purp (Responded r) =
     Inl (JsError (if auth_response r b then ''authentication_required'' else server_message r b))"
  by (simp add: attempt_def)

lemma retry_loop_reaches:
  assumes "\<And>j. retryCount st \<le> j \<Longrightarrow> j < k \<Longrightarrow>
             \<exists>err. attempt purp (f j) = Inl err \<and> retryable (caught_message err)"
    and "k \<le> maxRetries"
    and "retryCount st \<le> k"
    and "calls st = retryCount st"
  shows "\<exists>st2. retry_loop f purp st = retry_loop f purp st2 \<and> retryCount st2 = k \<and>
           calls st2 = k \<and>
           waits st2 = waits st @ map (\<lambda>n. 1000 * 2 ^ (n + 1)) [retryCount st..<k]"
  using assms
proof (induction "k - retryCount st" arbitrary: st rule: less_induct)
  case less
  show ?case
  proof (cases "retryCount st = k")
    case True
    with less.prems(4) show ?thesis by (intro exI [of _ st]) simp
  next
    case False
    with less.prems(3) have lt: "retryCount st < k" by simp
    with less.prems(2) have lt': "retryCount st < maxRetries" by simp
    from less.prems(1) [of "retryCount st"] lt
    obtain err where err: "attempt purp (f (retryCount st)) = Inl err"
      and r: "retryable (caught_message err)" by auto
    from err less.prems(4) have err': "attempt purp (f (calls st)) = Inl err" by simp
    from r have na: "\<not> auth_message (caught_message err)" and net: "isNetworkError (caught_message err)"
      by (simp_all add: retryable_def)
    define st1 where "st1 = st\<lparr>calls := calls st + 1, lastError := Some (caught_message err),
           retryCount := retryCount st + 1,
           waits := waits st @ [1000 * 2 ^ (retryCount st + 1)]\<rparr>"
    have step: "retry_loop f purp st = retry_loop f purp st1"
      unfolding st1_def
      by (rule retry_loop_retry [where f = f and st = st and purp = purp, OF lt' err' na net])
    have m: "k - retryCount st1 < k - retryCount st" using lt by (simp add: st1_def)
    have a: "\<And>j. retryCount st1 \<le> j \<Longrightarrow> j < k \<Longrightarrow>
             \<exists>err. attempt purp (f j) = Inl err \<and> retryable (caught_message err)"
      using less.prems(1) by (simp add: st1_def)
    have b: "retryCount st1 \<le> k" using lt by (simp add: st1_def)
    have c: "calls st1 = retryCount st1" using less.prems(4) by (simp add: st1_def)
    from less.hyps [OF m a less.prems(2) b c]
    obtain st2 where st2: "retry_loop f purp st1 = retry_loop f purp st2" "retryCount st2 = k"
      "calls st2 = k"
      "waits st2 = waits st1 @ map (\<lambda>n. 1000 * 2 ^ (n + 1)) [retryCount st1..<k]"
      by blast
    have "waits st1 @ map (\<lambda>n. 1000 * 2 ^ (n + 1)) [retryCount st1..<k] =
          waits st @ map (\<lambda>n. 1000 * 2 ^ (n + 1)) [retryCount st..<k]"
      using lt by (simp add: st1_def upt_conv_Cons)
    with st2 step show ?thesis by (intro exI [of _ st2]) simp
  qed
qed

lemma retry_loop_Inr:
  assumes "retry_loop f purp st = (Inr s, st')"
  shows "\<exists>k r d. f k = Responded r \<and> ok r \<and> body_json r = Inr d \<and> s = on_success purp d"
  using assms
proof (induction "Suc maxRetries - retryCount st" arbitrary: st rule: less_induct)
  case less
  show ?case
  proof (cases "retryCount st \<le> maxRetries")
    case False
    from retry_loop_exit [where f = f and st = st and purp = purp, OF False] less.prems
    show ?thesis by simp
  next
    case le: True
    show ?thesis
    proof (cases "attempt purp (f (calls st))")
      case (Inr d)
      from retry_loop_success [where f = f and st = st and purp = purp, OF le Inr] less.prems
      have "s = d" by simp
      with attempt_Inr [OF Inr] show ?thesis by blast
    next
      case (Inl e)
      show ?thesis
      proof (cases "auth_message (caught_message e)")
        case True
        from retry_loop_auth [where f = f and st = st and purp = purp, OF le Inl True] less.prems
        show ?thesis by simp
      next
        case False
        show ?thesis
        proof (cases "isNetworkError (caught_message e) \<and> retryCount st < maxRetries")
          case True
          define st2 where "st2 = st\<lparr>calls := calls st + 1, lastError := Some (caught_message e),
             retryCount := retryCount st + 1,
             waits := waits st @ [1000 * 2 ^ (retryCount st + 1)]\<rparr>"
          from True have lt: "retryCount st < maxRetries" and net: "isNetworkError (caught_message e)"
            by simp_all
          have step: "retry_loop f purp st = retry_loop f purp st2"
            unfolding st2_def
            by (rule retry_loop_retry [where f = f and st = st and purp = purp, OF lt Inl False net])
          have m: "Suc maxRetries - retryCount st2 < Suc maxRetries - retryCount st"
            using lt by (simp add: st2_def)
          have a: "retry_loop f purp st2 = (Inr s, st')"
            using less.prems(1) step by simp
          from less.hyps [OF m a] show ?thesis .
        next
          case nr: False
          from retry_loop_throw [where f = f and st = st and purp = purp, OF le Inl False nr]
            less.prems
          show ?thesis by simp
        qed
      qed
    qed
  qed
qed

lemma generateKhutba_success_at:
  assumes "isOnline e"
    and "k \<le> maxRetries"
    and "\<And>j. j < k \<Longrightarrow> \<exists>err. attempt purp (fetch e j) = Inl err \<and> retryable (caught_message err)"
    and "fetch e k = Responded r"
    and "ok r"
    and "body_json r = Inr d"
  shows "\<exists>run. generateKhutba e purp = Inr run \<and> returned run = on_success purp d \<and>
           fetch_calls run = k + 1 \<and>
           backoff_waits run = map (\<lambda>n. 1000 * 2 ^ (n + 1)) [0..<k] \<and> caught run = None"
proof -
  have "\<exists>st2. retry_loop (fetch e) purp init_state = retry_loop (fetch e) purp st2 \<and>
          retryCount st2 = k \<and> calls st2 = k \<and>
          waits st2 = waits init_state @ map (\<lambda>n. 1000 * 2 ^ (n + 1)) [retryCount init_state..<k]"
    by (rule retry_loop_reaches) (use assms(2,3) in \<open>simp_all add: init_state_def\<close>)
  then obtain st2 where st2: "retry_loop (fetch e) purp init_state = retry_loop (fetch e) purp st2"
    "retryCount st2 = k" "calls st2 = k"
    "waits st2 = map (\<lambda>n. 1000 * 2 ^ (n + 1)) [0..<k]"
    by (auto simp: init_state_def)
  have att: "attempt purp (fetch e (calls st2)) = Inr (on_success purp d)"
    using st2(3) assms(4) attempt_ok [OF assms(5,6)] by simp
  have le: "retryCount st2 \<le> maxRetries" using st2(2) assms(2) by simp
  from retry_loop_success [where f = "fetch e" and st = st2 and purp = purp, OF le att] st2
  have "try_block e purp = (Inr (on_success purp d), st2\<lparr>calls := calls st2 + 1\<rparr>)"
    using assms(1) by (simp add: try_block_def)
  then show ?thesis using st2 by (simp add: generateKhutba_def)
qed

subsection \<open>The run as a function of the try block\<close>

lemma generateKhutba_returns:
  assumes "binary64 (random e) = random e" and "0 \<le> random e" and "random e < 1"
  shows "\<exists>run. generateKhutba e purp = Inr run \<and>
           fetch_calls run = calls (snd (try_block e purp)) \<and>
           backoff_waits run = waits (snd (try_block e purp)) \<and>
           (\<forall>err st. try_block e purp = (Inl err, st) \<longrightarrow>
              caught run = Some err \<and> errorType (returned run) = Some (classify err)) \<and>
           (\<forall>d st. try_block e purp = (Inr d, st) \<longrightarrow> caught run = None \<and> returned run = d)"
proof (cases "try_block e purp")
  case (Pair res st)
  show ?thesis
  proof (cases res)
    case (Inl err)
    from fallback_returns [OF assms, of "toUpperCase e" purp "classify err"]
    obtain s where "fallback (toUpperCase e) (random e) purp (classify err) = Inr s"
      and "errorType s = Some (classify err)"
      by auto
    with Pair Inl show ?thesis by (simp add: generateKhutba_def)
  next
    case (Inr d)
    with Pair show ?thesis by (simp add: generateKhutba_def)
  qed
qed

lemma generateKhutba_Inr:
  assumes "generateKhutba e purp = Inr run"
  shows "fetch_calls run = calls (snd (try_block e purp)) \<and>
         backoff_waits run = waits (snd (try_block e purp)) \<and>
         (case fst (try_block e purp) of
            Inr d \<Rightarrow> caught run = None \<and> returned run = d
          | Inl err \<Rightarrow> caught run = Some err \<and>
              fallback (toUpperCase e) (random e) purp (classify err) = Inr (returned run))"
  using assms
  by (cases "try_block e purp")
     (auto simp: generateKhutba_def split: sum.splits)

subsection \<open>The function always returns a sermon\<close>

text \<open>
  Claim C1. Whatever the purpose, the connectivity flag and the outcome of every call of
  \<^verbatim>\<open>fetch\<close> (a success, any status, any thrown value, a body that cannot be read), with
  \<^verbatim>\<open>Math.random\<close> drawing from its interval, \<open>generateKhutba\<close> returns a sermon and throws
  nothing; and whenever the \<^verbatim>\<open>try\<close> block ended in an error, the outer handler caught it and
  the returned sermon carries the error type chosen for it.
\<close>

theorem generateKhutba_always_returns:
  assumes "binary64 (random e) = random e" and "0 \<le> random e" and "random e < 1"
  shows "\<exists>r. generateKhutba e purp = Inr r \<and>
           (\<forall>err st. try_block e purp = (Inl err, st) \<longrightarrow>
              caught r = Some err \<and> errorType (returned r) = Some (classify err))"
proof (cases "try_block e purp")
  case (Pair res st)
  show ?thesis
  proof (cases res)
    case (Inl err)
    from fallback_returns [OF assms, of "toUpperCase e" purp "classify err"]
    obtain s where "fallback (toUpperCase e) (random e) purp (classify err) = Inr s"
      and "errorType s = Some (classify err)"
      by auto
    with Pair Inl show ?thesis by (simp add: generateKhutba_def)
  next
    case (Inr d)
    with Pair show ?thesis by (simp add: generateKhutba_def)
  qed
qed


theorem generateKhutba_always_returns_witness:
  "binary64 (random (online_env (always (Rejected (JsError ''Failed to fetch''))))) =
     random (online_env (always (Rejected (JsError ''Failed to fetch'')))) \<and>
   0 \<le> random (online_env (always (Rejected (JsError ''Failed to fetch'')))) \<and>
   random (online_env (always (Rejected (JsError ''Failed to fetch'')))) < 1 \<and>
   (\<exists>r. generateKhutba (online_env (always (Rejected (JsError ''Failed to fetch'')))) ''grief'' = Inr r \<and>
      caught r = Some (JsError ''Failed to fetch'') \<and> errorType (returned r) = Some Network)"
proof -
  let ?e = "online_env (always (Rejected (JsError ''Failed to fetch'')))"
  have h0: "binary64 (random ?e) = random ?e" by (rule online_env_random)
  have h1: "0 \<le> random ?e" and h2: "random ?e < 1"
    by (simp_all add: online_env_def)
  have t: "fst (try_block ?e ''grief'') = Inl (JsError ''Failed to fetch'')"
    by code_simp
  have c: "classify (JsError ''Failed to fetch'') = Network"
    by code_simp
  from generateKhutba_always_returns [OF h0 h1 h2, of "''grief''"]
  obtain r where r: "generateKhutba ?e ''grief'' = Inr r"
    and f: "\<And>err st. try_block ?e ''grief'' = (Inl err, st) \<Longrightarrow>
              caught r = Some err \<and> errorType (returned r) = Some (classify err)"
    by blast
  obtain st where "try_block ?e ''grief'' = (Inl (JsError ''Failed to fetch''), st)"
    using t by (cases "try_block ?e ''grief''") simp
  from f [OF this] c r h0 h1 h2 show ?thesis by simp
qed

subsection \<open>The full audio URL\<close>

lemma spec_absolute_url_base: "spec_absolute_url (API_BASE_URL @ x)"
  by (simp add: spec_absolute_url_def API_BASE_URL_def letter_def scheme_char_def
      lower_letters_def upper_letters_def)

lemma spec_absolute_url_empty: "\<not> spec_absolute_url []"
  by (simp add: spec_absolute_url_def)

lemma resolve_audio_empty:
  "a = None \<or> a = Some [] \<Longrightarrow> resolve_audio a = []"
  by (auto simp: resolve_audio_def)

lemma sample_fields:
  assumes "i < 3"
  shows "audio_url (sampleSermons ! i) = Some sample_audio_url \<and>
         fullAudioUrl (sampleSermons ! i) = Some sample_fullAudioUrl"
proof -
  from assms have "i = 0 \<or> i = 1 \<or> i = 2" by auto
  then show ?thesis by (auto simp: sampleSermons_def sampleSermon_def)
qed

text \<open>
  Claim C2. When the response that ends the loop is a success whose payload has a non-empty
  \<^verbatim>\<open>audio_url\<close> \<open>p\<close> (the attempts before it, if any, having failed with errors the loop
  retries), the returned sermon's \<^verbatim>\<open>fullAudioUrl\<close> is \<open>p\<close> itself when \<open>p\<close> starts with
  \<^verbatim>\<open>http\<close>, and otherwise the base URL followed by \<open>p\<close>, with a slash put in front of \<open>p\<close>
  exactly when \<open>p\<close> does not start with one. So \<^verbatim>\<open>foo.wav\<close> gives the base URL followed by
  \<^verbatim>\<open>/foo.wav\<close>, and \<^verbatim>\<open>https://x/y.wav\<close> is returned unchanged.
\<close>

theorem fullAudioUrl_of_success:
  assumes "isOnline e"
    and "k \<le> maxRetries"
    and "\<And>j. j < k \<Longrightarrow> \<exists>err. attempt purp (fetch e j) = Inl err \<and> retryable (caught_message err)"
    and "fetch e k = Responded r"
    and "ok r"
    and "body_json r = Inr d"
    and "audio_url d = Some p"
    and "p \<noteq> []"
  shows "\<exists>run. generateKhutba e purp = Inr run \<and> caught run = None \<and>
           fullAudioUrl (returned run) =
             Some (if startsWith p ''http'' then p
                   else if startsWith p ''/'' then API_BASE_URL @ p
                   else API_BASE_URL @ ''/'' @ p)"
proof -
  from generateKhutba_success_at [OF assms(1-6)]
  obtain run where "generateKhutba e purp = Inr run" "returned run = on_success purp d"
    "caught run = None" by blast
  with assms(7,8) show ?thesis
    by (auto simp: on_success_def resolve_audio_def)
qed

theorem fullAudioUrl_of_success_witness:
  "(\<exists>run. generateKhutba (online_env (always (Responded (ok_response (payload (Some ''foo.wav'')))))) ''grief'' = Inr run \<and>
      caught run = None \<and>
      fullAudioUrl (returned run) = Some ''https://islamicaudio.techrealm.online/foo.wav'') \<and>
   (\<exists>run. generateKhutba (online_env (flaky (Responded (ok_response (payload (Some ''https://x/y.wav'')))))) ''grief'' = Inr run \<and>
      caught run = None \<and>
      fullAudioUrl (returned run) = Some ''https://x/y.wav'')"
proof -
  let ?r1 = "ok_response (payload (Some ''foo.wav''))"
  let ?e1 = "online_env (always (Responded ?r1))"
  let ?r2 = "ok_response (payload (Some ''https://x/y.wav''))"
  let ?e2 = "online_env (flaky (Responded ?r2))"
  have a1: "isOnline ?e1" "(0::nat) \<le> maxRetries" "fetch ?e1 0 = Responded ?r1" "ok ?r1"
    "body_json ?r1 = Inr (payload (Some ''foo.wav''))"
    "audio_url (payload (Some ''foo.wav'')) = Some ''foo.wav''" "''foo.wav'' \<noteq> []"
    by (simp_all add: isOnline_def online_env_def always_def ok_def ok_response_def payload_def)
  have v1: "(if startsWith ''foo.wav'' ''http'' then ''foo.wav''
             else if startsWith ''foo.wav'' ''/'' then API_BASE_URL @ ''foo.wav''
             else API_BASE_URL @ ''/'' @ ''foo.wav'') = ''https://islamicaudio.techrealm.online/foo.wav''"
    by code_simp
  have a2: "isOnline ?e2" "(2::nat) \<le> maxRetries" "fetch ?e2 2 = Responded ?r2" "ok ?r2"
    "body_json ?r2 = Inr (payload (Some ''https://x/y.wav''))"
    "audio_url (payload (Some ''https://x/y.wav'')) = Some ''https://x/y.wav''" "''https://x/y.wav'' \<noteq> []"
    by (simp_all add: isOnline_def online_env_def flaky_def ok_def ok_response_def payload_def maxRetries_def)
  have f2: "\<And>j. j < 2 \<Longrightarrow> \<exists>err. attempt ''grief'' (fetch ?e2 j) = Inl err \<and> retryable (caught_message err)"
  proof -
    fix j :: nat assume "j < 2"
    then have "attempt ''grief'' (fetch ?e2 j) = Inl (JsError ''Failed to fetch'')"
      by (simp add: online_env_def flaky_def attempt_def)
    moreover have "retryable (caught_message (JsError ''Failed to fetch''))" by code_simp
    ultimately show "\<exists>err. attempt ''grief'' (fetch ?e2 j) = Inl err \<and> retryable (caught_message err)"
      by blast
  qed
  have v2: "(if startsWith ''https://x/y.wav'' ''http'' then ''https://x/y.wav''
             else if startsWith ''https://x/y.wav'' ''/'' then API_BASE_URL @ ''https://x/y.wav''
             else API_BASE_URL @ ''/'' @ ''https://x/y.wav'') = ''https://x/y.wav''"
    by code_simp
  from fullAudioUrl_of_success [of ?e1 0 "''grief''" ?r1 "payload (Some ''foo.wav'')" "''foo.wav''",
      OF a1(1,2) _ a1(3-7)]
  have c1: "\<exists>run. generateKhutba ?e1 ''grief'' = Inr run \<and> caught run = None \<and>
      fullAudioUrl (returned run) = Some ''https://islamicaudio.techrealm.online/foo.wav''"
    unfolding v1 by simp
  from fullAudioUrl_of_success [of ?e2 2 "''grief''" ?r2 "payload (Some ''https://x/y.wav'')"
      "''https://x/y.wav''", OF a2(1,2) f2 a2(3-7)]
  have c2: "\<exists>run. generateKhutba ?e2 ''grief'' = Inr run \<and> caught run = None \<and>
      fullAudioUrl (returned run) = Some ''https://x/y.wav''"
    unfolding v2 by simp
  from c1 c2 show ?thesis by (rule conjI)
qed

subsection \<open>A success without an audio path\<close>

text \<open>
  Claim C10. When the response that ends the loop is a success whose payload has an empty
  \<^verbatim>\<open>audio_url\<close>, or none, \<open>generateKhutba\<close> returns that payload with the purpose stored and
  \<^verbatim>\<open>fullAudioUrl\<close> set to the empty string: the outer handler does not run, and
  \<^verbatim>\<open>errorType\<close> is left as the payload has it, so it stays unset when the payload has none.
\<close>

theorem success_without_audio_url:
  assumes "isOnline e"
    and "k \<le> maxRetries"
    and "\<And>j. j < k \<Longrightarrow> \<exists>err. attempt purp (fetch e j) = Inl err \<and> retryable (caught_message err)"
    and "fetch e k = Responded r"
    and "ok r"
    and "body_json r = Inr d"
    and "audio_url d = None \<or> audio_url d = Some []"
  shows "\<exists>run. generateKhutba e purp = Inr run \<and> caught run = None \<and>
           returned run = d\<lparr>purpose := Some purp, fullAudioUrl := Some []\<rparr> \<and>
           fullAudioUrl (returned run) = Some [] \<and> \<not> spec_absolute_url [] \<and>
           errorType (returned run) = errorType d"
proof -
  from generateKhutba_success_at [OF assms(1-6)]
  obtain run where "generateKhutba e purp = Inr run" "returned run = on_success purp d"
    "caught run = None" by blast
  moreover note spec_absolute_url_empty
  ultimately show ?thesis using resolve_audio_empty [OF assms(7)]
    by (auto simp: on_success_def)
qed

theorem success_without_audio_url_witness:
  "ok (ok_response (payload (Some []))) \<and>
   (\<exists>run. generateKhutba (online_env (always (Responded (ok_response (payload (Some [])))))) ''grief'' = Inr run \<and>
      caught run = None \<and> fullAudioUrl (returned run) = Some [] \<and>
      errorType (returned run) = None)"
proof -
  let ?d = "payload (Some [])"
  let ?r = "ok_response ?d"
  let ?e = "online_env (always (Responded ?r))"
  have a: "isOnline ?e" "(0::nat) \<le> maxRetries" "fetch ?e 0 = Responded ?r" "ok ?r"
    "body_json ?r = Inr ?d" "audio_url ?d = None \<or> audio_url ?d = Some []" "errorType ?d = None"
    by (simp_all add: isOnline_def online_env_def always_def ok_def ok_response_def payload_def)
  from success_without_audio_url [of ?e 0 "''grief''" ?r ?d, OF a(1,2) _ a(3-6)] a(4,7)
  show ?thesis by auto
qed

subsection \<open>Two network failures, then a success\<close>

text \<open>
  Claim C8, as the code has it. When the first two attempts fail with errors that the inner
  handler takes for network errors (a network marker in the message and none of the
  authentication markers it looks for first) and the third response is a success whose
  payload carries no \<^verbatim>\<open>errorType\<close>, there are exactly three calls of \<^verbatim>\<open>fetch\<close>, the returned
  sermon has no \<^verbatim>\<open>errorType\<close>, and its \<^verbatim>\<open>fullAudioUrl\<close> follows the resolution rule: the empty
  string when the payload's \<^verbatim>\<open>audio_url\<close> is empty or absent; \<^verbatim>\<open>audio_url\<close> itself, unchanged,
  when it starts with \<^verbatim>\<open>http\<close> (so it is an absolute URL only if \<^verbatim>\<open>audio_url\<close> is one, which the
  code does not check beyond these four letters); and otherwise the base URL in front of the
  path with its leading slash, which is an absolute URL.
\<close>

theorem third_attempt_succeeds:
  assumes "isOnline e"
    and "attempt purp (fetch e 0) = Inl e0" and "retryable (caught_message e0)"
    and "attempt purp (fetch e 1) = Inl e1" and "retryable (caught_message e1)"
    and "fetch e 2 = Responded r" and "ok r" and "body_json r = Inr d"
    and "errorType d = None"
  shows "\<exists>run u. generateKhutba e purp = Inr run \<and> fetch_calls run = 3 \<and> caught run = None \<and>
           errorType (returned run) = None \<and> fullAudioUrl (returned run) = Some u \<and>
           (case audio_url d of
              None \<Rightarrow> u = []
            | Some p \<Rightarrow>
                if p = [] then u = []
                else if startsWith p ''http'' then u = p
                else u = API_BASE_URL @ (if startsWith p ''/'' then p else ''/'' @ p) \<and>
                     spec_absolute_url u)"
proof -
  have f: "\<And>j. j < 2 \<Longrightarrow> \<exists>err. attempt purp (fetch e j) = Inl err \<and> retryable (caught_message err)"
  proof -
    fix j :: nat assume "j < 2"
    then have "j = 0 \<or> j = 1" by auto
    with assms(2-5) show "\<exists>err. attempt purp (fetch e j) = Inl err \<and> retryable (caught_message err)"
      by auto
  qed
  have k: "(2::nat) \<le> maxRetries" by (simp add: maxRetries_def)
  from generateKhutba_success_at [OF assms(1) k f assms(6-8)]
  obtain run where run: "generateKhutba e purp = Inr run" "returned run = on_success purp d"
    "fetch_calls run = 2 + 1" "caught run = None" by blast
  let ?u = "resolve_audio (audio_url d)"
  have u: "case audio_url d of
              None \<Rightarrow> ?u = []
            | Some p \<Rightarrow>
                if p = [] then ?u = []
                else if startsWith p ''http'' then ?u = p
                else ?u = API_BASE_URL @ (if startsWith p ''/'' then p else ''/'' @ p) \<and>
                     spec_absolute_url ?u"
    by (simp add: resolve_audio_def spec_absolute_url_base split: option.splits)
  from run assms(9) u show ?thesis
    by (intro exI [of _ run] exI [of _ ?u]) (simp add: on_success_def)
qed

theorem third_attempt_succeeds_witness:
  "retryable ''Failed to fetch'' \<and> ok (ok_response (payload (Some ''foo.wav''))) \<and>
   (\<exists>run. generateKhutba (online_env (flaky (Responded (ok_response (payload (Some ''foo.wav'')))))) ''grief'' = Inr run \<and>
      fetch_calls run = 3 \<and> errorType (returned run) = None \<and>
      fullAudioUrl (returned run) = Some ''https://islamicaudio.techrealm.online/foo.wav'' \<and>
      spec_absolute_url ''https://islamicaudio.techrealm.online/foo.wav'') \<and>
   (\<exists>run. generateKhutba (online_env (flaky (Responded (ok_response (payload (Some ''httpfoo.wav'')))))) ''grief'' = Inr run \<and>
      fetch_calls run = 3 \<and> errorType (returned run) = None \<and>
      fullAudioUrl (returned run) = Some ''httpfoo.wav'' \<and>
      \<not> spec_absolute_url ''httpfoo.wav'')"
proof -
  have n: "retryable ''Failed to fetch''" by code_simp
  have a: "isOnline (online_env (flaky (Responded (ok_response (payload (Some p))))))"
    "attempt ''grief'' (fetch (online_env (flaky (Responded (ok_response (payload (Some p)))))) 0) =
       Inl (JsError ''Failed to fetch'')"
    "attempt ''grief'' (fetch (online_env (flaky (Responded (ok_response (payload (Some p)))))) 1) =
       Inl (JsError ''Failed to fetch'')"
    "fetch (online_env (flaky (Responded (ok_response (payload (Some p)))))) 2 =
       Responded (ok_response (payload (Some p)))"
    "ok (ok_response (payload (Some p)))"
    "body_json (ok_response (payload (Some p))) = Inr (payload (Some p))"
    "errorType (payload (Some p)) = None"
    "audio_url (payload (Some p)) = Some p" for p
    by (simp_all add: isOnline_def online_env_def flaky_def attempt_def ok_def
        ok_response_def payload_def)
  have m: "retryable (caught_message (JsError ''Failed to fetch''))"
    using n by (simp add: caught_message_def)
  note a1 = a [of "''foo.wav''"] and a2 = a [of "''httpfoo.wav''"]
  have v1: "API_BASE_URL @ ''/'' @ ''foo.wav'' = ''https://islamicaudio.techrealm.online/foo.wav''"
    by (simp add: API_BASE_URL_def)
  have s1: "\<not> startsWith ''foo.wav'' ''http''" "\<not> startsWith ''foo.wav'' ''/''"
    by (simp_all add: startsWith_def)
  have s2: "startsWith ''httpfoo.wav'' ''http''" by (simp add: startsWith_def)
  have n2: "\<not> spec_absolute_url ''httpfoo.wav''" by code_simp
  from third_attempt_succeeds [OF a1(1,2) m a1(3) m a1(4,5,6,7)] a1(8) s1
  have c1: "\<exists>run. generateKhutba (online_env (flaky (Responded (ok_response (payload (Some ''foo.wav'')))))) ''grief'' = Inr run \<and>
      fetch_calls run = 3 \<and> errorType (returned run) = None \<and>
      fullAudioUrl (returned run) = Some ''https://islamicaudio.techrealm.online/foo.wav'' \<and>
      spec_absolute_url ''https://islamicaudio.techrealm.online/foo.wav''"
    unfolding v1 [symmetric] by auto
  from third_attempt_succeeds [OF a2(1,2) m a2(3) m a2(4,5,6,7)] a2(8) s2 n2
  have c2: "\<exists>run. generateKhutba (online_env (flaky (Responded (ok_response (payload (Some ''httpfoo.wav'')))))) ''grief'' = Inr run \<and>
      fetch_calls run = 3 \<and> errorType (returned run) = None \<and>
      fullAudioUrl (returned run) = Some ''httpfoo.wav'' \<and>
      \<not> spec_absolute_url ''httpfoo.wav''"
    by auto
  from n a1(5) c1 c2 show ?thesis by blast
qed

text \<open>
  Claim C8 promises an absolute URL after every such success. With two rejected calls and
  then a success whose payload has an empty \<^verbatim>\<open>audio_url\<close>, the three attempts are made, and
  the sermon returned has the empty string for \<^verbatim>\<open>fullAudioUrl\<close>.
\<close>

theorem third_attempt_empty_audio_counterexample:
  "retryable ''Failed to fetch'' \<and> ok (ok_response (payload (Some []))) \<and>
   \<not> isl (generateKhutba (online_env (flaky (Responded (ok_response (payload (Some [])))))) ''grief'') \<and>
   fetch_calls (projr (generateKhutba (online_env (flaky (Responded (ok_response (payload (Some [])))))) ''grief'')) = 3 \<and>
   caught (projr (generateKhutba (online_env (flaky (Responded (ok_response (payload (Some [])))))) ''grief'')) = None \<and>
   fullAudioUrl (returned (projr (generateKhutba (online_env (flaky (Responded (ok_response (payload (Some [])))))) ''grief''))) = Some [] \<and>
   \<not> spec_absolute_url []"
  by code_simp

subsection \<open>The full audio URL of every returned sermon\<close>

text \<open>
  Claim C3 says that \<^verbatim>\<open>fullAudioUrl\<close> is an absolute URL in every returned sermon. A success
  whose payload lacks \<^verbatim>\<open>audio_url\<close> returns the empty string there.
\<close>

theorem fullAudioUrl_absolute_counterexample:
  "ok (ok_response (payload None)) \<and>
   \<not> isl (generateKhutba (online_env (always (Responded (ok_response (payload None))))) ''grief'') \<and>
   caught (projr (generateKhutba (online_env (always (Responded (ok_response (payload None))))) ''grief'')) = None \<and>
   fullAudioUrl (returned (projr (generateKhutba (online_env (always (Responded (ok_response (payload None))))) ''grief''))) = Some [] \<and>
   \<not> spec_absolute_url []"
  by code_simp

text \<open>
  Claim C3, as the code has it. In every returned sermon, from a success or from the table,
  \<^verbatim>\<open>fullAudioUrl\<close> is fixed by the sermon's own \<^verbatim>\<open>audio_url\<close>. It is the empty string when
  \<^verbatim>\<open>audio_url\<close> is empty or absent, which happens after a success only. It is \<^verbatim>\<open>audio_url\<close>
  itself, unchanged, when that starts with \<^verbatim>\<open>http\<close>, again after a success only; the code
  checks no more than these four letters, so the result is an absolute URL only if the
  payload's \<^verbatim>\<open>audio_url\<close> is one. Otherwise it is the base URL in front of the path with its
  leading slash, which is an absolute URL; every fallback sermon is of this kind.
\<close>

theorem fullAudioUrl_resolved:
  assumes "binary64 (random e) = random e" and "0 \<le> random e" and "random e < 1"
  shows "\<exists>run u. generateKhutba e purp = Inr run \<and> fullAudioUrl (returned run) = Some u \<and>
           (case audio_url (returned run) of
              None \<Rightarrow> u = [] \<and> caught run = None
            | Some p \<Rightarrow>
                if p = [] then u = [] \<and> caught run = None
                else if startsWith p ''http'' then u = p \<and> caught run = None
                else u = API_BASE_URL @ (if startsWith p ''/'' then p else ''/'' @ p) \<and>
                     spec_absolute_url u) \<and>
           (caught run \<noteq> None \<longrightarrow> spec_absolute_url u)"
proof (cases "try_block e purp")
  case (Pair res st)
  show ?thesis
  proof (cases res)
    case (Inl err)
    from fallback_returns [OF assms, of "toUpperCase e" purp "classify err"]
    obtain i where i: "i < 3"
      and fb: "fallback (toUpperCase e) (random e) purp (classify err) =
        Inr ((sampleSermons ! i)
               \<lparr>title := title (sampleSermons ! i) @ '' - '' @ capitalizedPurpose (toUpperCase e) purp,
                purpose := Some purp, errorType := Some (classify err)\<rparr>)"
      by blast
    have t: "sample_audio_url \<noteq> []" "\<not> startsWith sample_audio_url ''http''"
      "startsWith sample_audio_url ''/''"
      by (simp_all add: sample_audio_url_def startsWith_def)
    have b: "sample_fullAudioUrl = API_BASE_URL @ sample_audio_url"
      by (simp add: sample_fullAudioUrl_def API_BASE_URL_def sample_audio_url_def)
    have abs: "spec_absolute_url sample_fullAudioUrl"
      unfolding b by (rule spec_absolute_url_base)
    let ?s = "(sampleSermons ! i)
               \<lparr>title := title (sampleSermons ! i) @ '' - '' @ capitalizedPurpose (toUpperCase e) purp,
                purpose := Some purp, errorType := Some (classify err)\<rparr>"
    let ?run = "\<lparr>returned = ?s, fetch_calls = calls st, backoff_waits = waits st,
                caught = Some err\<rparr>"
    have g: "generateKhutba e purp = Inr ?run"
      using Pair Inl fb by (simp add: generateKhutba_def)
    from sample_fields [OF i] t b abs show ?thesis
      by (intro exI [of _ ?run] exI [of _ sample_fullAudioUrl]) (simp add: g)
  next
    case (Inr s)
    with Pair have loop: "retry_loop (fetch e) purp init_state = (Inr s, st)"
      by (auto simp: try_block_def split: if_splits)
    from retry_loop_Inr [OF loop] obtain d where s: "s = on_success purp d" by blast
    let ?run = "\<lparr>returned = s, fetch_calls = calls st, backoff_waits = waits st, caught = None\<rparr>"
    have g: "generateKhutba e purp = Inr ?run"
      using Pair Inr by (simp add: generateKhutba_def)
    show ?thesis
      by (intro exI [of _ ?run] exI [of _ "resolve_audio (audio_url d)"])
         (simp add: g s on_success_def resolve_audio_def spec_absolute_url_base split: option.splits)
  qed
qed

theorem fullAudioUrl_resolved_witness:
  "binary64 (random offline_env) = random offline_env \<and>
   0 \<le> random offline_env \<and> random offline_env < 1 \<and>
   (\<exists>run. generateKhutba offline_env ''grief'' = Inr run \<and>
      fullAudioUrl (returned run) = Some sample_fullAudioUrl \<and>
      spec_absolute_url sample_fullAudioUrl) \<and>
   (\<exists>run. generateKhutba (online_env (always (Responded (ok_response (payload (Some ''httpfoo.wav'')))))) ''grief'' = Inr run \<and>
      fullAudioUrl (returned run) = Some ''httpfoo.wav'' \<and>
      \<not> spec_absolute_url ''httpfoo.wav'')"
proof -
  let ?e = "online_env (always (Responded (ok_response (payload (Some ''httpfoo.wav'')))))"
  have h: "binary64 (random offline_env) = random offline_env" "0 \<le> random offline_env"
    "random offline_env < 1"
    by code_simp+
  have h': "binary64 (random ?e) = random ?e" "0 \<le> random ?e" "random ?e < 1"
    by code_simp+
  have c: "caught (projr (generateKhutba offline_env ''grief'')) \<noteq> None"
    by code_simp
  have v: "fullAudioUrl (returned (projr (generateKhutba offline_env ''grief''))) =
      Some sample_fullAudioUrl"
    by code_simp
  have v': "audio_url (returned (projr (generateKhutba ?e ''grief''))) = Some ''httpfoo.wav''"
    by code_simp
  have s: "startsWith ''httpfoo.wav'' ''http''" by (simp add: startsWith_def)
  have n: "\<not> spec_absolute_url ''httpfoo.wav''" by code_simp
  from fullAudioUrl_resolved [OF h, of "''grief''"] c v
  have c1: "\<exists>run. generateKhutba offline_env ''grief'' = Inr run \<and>
      fullAudioUrl (returned run) = Some sample_fullAudioUrl \<and>
      spec_absolute_url sample_fullAudioUrl"
    by auto
  from fullAudioUrl_resolved [OF h', of "''grief''"] v' s n
  have c2: "\<exists>run. generateKhutba ?e ''grief'' = Inr run \<and>
      fullAudioUrl (returned run) = Some ''httpfoo.wav'' \<and>
      \<not> spec_absolute_url ''httpfoo.wav''"
    by auto
  from h c1 c2 show ?thesis by blast
qed

subsection \<open>Authentication failures are not retried\<close>

lemma classify_authentication_required: "classify (JsError ''authentication_required'') = Auth"
  by code_simp

lemma auth_message_authentication_required: "auth_message ''authentication_required''"
  by (simp add: auth_message_def)

text \<open>
  Claim C4 speaks of any first response whose body text contains \<^verbatim>\<open>auth\<close>. A response with
  status 200 whose sermon text has the word \<^verbatim>\<open>authentic\<close> is returned as a success: the
  markers are looked for only under \<^verbatim>\<open>if (!response.ok)\<close>.
\<close>

theorem auth_marker_in_ok_body_counterexample:
  "ok authentic_response \<and>
   includes_str (toLowerCase (projr (body_text authentic_response))) ''auth'' \<and>
   \<not> isl (generateKhutba (online_env (always (Responded authentic_response))) ''grief'') \<and>
   fetch_calls (projr (generateKhutba (online_env (always (Responded authentic_response))) ''grief'')) = 1 \<and>
   caught (projr (generateKhutba (online_env (always (Responded authentic_response))) ''grief'')) = None \<and>
   errorType (returned (projr (generateKhutba (online_env (always (Responded authentic_response))) ''grief''))) = None"
  by code_simp

text \<open>
  Claim C4, as the code has it. When the first response is not ok, its body text has been
  read, and its status is 401 (which is never ok) or the body text contains, with letter case
  ignored, \<^verbatim>\<open>unauthenticated\<close>, \<^verbatim>\<open>authentication token\<close> or \<^verbatim>\<open>auth\<close>, there is exactly one
  call of \<^verbatim>\<open>fetch\<close>, no retry, and the fallback sermon returned has the error type \<open>Auth\<close>.
\<close>

theorem auth_failure_single_attempt:
  assumes "isOnline e"
    and "fetch e 0 = Responded r"
    and "body_text r = Inr b"
    and "status r = 401 \<or>
         \<not> ok r \<and>
         (includes_str (toLowerCase b) ''unauthenticated'' \<or>
          includes_str (toLowerCase b) ''authentication token'' \<or>
          includes_str (toLowerCase b) ''auth'')"
    and "binary64 (random e) = random e" and "0 \<le> random e" and "random e < 1"
  shows "\<exists>run. generateKhutba e purp = Inr run \<and> fetch_calls run = 1 \<and>
           backoff_waits run = [] \<and>
           caught run = Some (JsError ''authentication_required'') \<and>
           errorType (returned run) = Some Auth"
proof -
  from assms(4) have nok: "\<not> ok r" by (auto simp: ok_def)
  have "b = [] \<Longrightarrow> \<not> includes_str (toLowerCase b) s" if "s \<noteq> []" for s
    using that by (simp add: toLowerCase_def)
  with assms(4) have ar: "auth_response r b"
    unfolding auth_response_def by (cases "b = []") auto
  have att: "attempt purp (fetch e (calls init_state)) = Inl (JsError ''authentication_required'')"
    using attempt_not_ok [OF nok assms(3), of purp] ar assms(2) by (simp add: init_state_def)
  have le: "retryCount init_state \<le> maxRetries" by (simp add: init_state_def)
  have am: "auth_message (caught_message (JsError ''authentication_required''))"
    using auth_message_authentication_required by (simp add: caught_message_def)
  from retry_loop_auth [where f = "fetch e" and st = init_state and purp = purp, OF le att am]
  have tb: "try_block e purp =
      (Inl (JsError ''authentication_required''),
       init_state\<lparr>calls := calls init_state + 1,
                  lastError := Some (caught_message (JsError ''authentication_required''))\<rparr>)"
    using assms(1) by (simp add: try_block_def caught_message_def)
  from fallback_returns [OF assms(5-7), of "toUpperCase e" purp Auth]
  obtain s where "fallback (toUpperCase e) (random e) purp Auth = Inr s" "errorType s = Some Auth" by auto
  with tb classify_authentication_required show ?thesis
    by (simp add: generateKhutba_def init_state_def)
qed

theorem auth_failure_single_attempt_witness:
  "status (error_response 401 ''Unauthorized'' ''denied'') = 401 \<and>
   (\<exists>run. generateKhutba (online_env (always (Responded (error_response 401 ''Unauthorized'' ''denied'')))) ''grief'' = Inr run \<and>
      fetch_calls run = 1 \<and> errorType (returned run) = Some Auth) \<and>
   \<not> ok (error_response 403 ''Forbidden'' ''Unauthenticated.'') \<and>
   includes_str (toLowerCase ''Unauthenticated.'') ''unauthenticated'' \<and>
   (\<exists>run. generateKhutba (online_env (always (Responded (error_response 403 ''Forbidden'' ''Unauthenticated.'')))) ''grief'' = Inr run \<and>
      fetch_calls run = 1 \<and> errorType (returned run) = Some Auth)"
proof -
  let ?r1 = "error_response 401 ''Unauthorized'' ''denied''"
  let ?e1 = "online_env (always (Responded ?r1))"
  let ?r2 = "error_response 403 ''Forbidden'' ''Unauthenticated.''"
  let ?e2 = "online_env (always (Responded ?r2))"
  have a1: "isOnline ?e1" "fetch ?e1 0 = Responded ?r1" "body_text ?r1 = Inr ''denied''"
    "status ?r1 = 401" "0 \<le> random ?e1" "random ?e1 < 1"
    by (simp_all add: isOnline_def online_env_def always_def error_response_def)
  have a2: "isOnline ?e2" "fetch ?e2 0 = Responded ?r2" "body_text ?r2 = Inr ''Unauthenticated.''"
    "\<not> ok ?r2" "0 \<le> random ?e2" "random ?e2 < 1"
    by (simp_all add: isOnline_def online_env_def always_def error_response_def ok_def)
  have m: "includes_str (toLowerCase ''Unauthenticated.'') ''unauthenticated''" by code_simp
  from a1(4) have d1: "status ?r1 = 401 \<or>
         \<not> ok ?r1 \<and>
         (includes_str (toLowerCase ''denied'') ''unauthenticated'' \<or>
          includes_str (toLowerCase ''denied'') ''authentication token'' \<or>
          includes_str (toLowerCase ''denied'') ''auth'')" by (rule disjI1)
  from a2(4) m have d2: "status ?r2 = 401 \<or>
         \<not> ok ?r2 \<and>
         (includes_str (toLowerCase ''Unauthenticated.'') ''unauthenticated'' \<or>
          includes_str (toLowerCase ''Unauthenticated.'') ''authentication token'' \<or>
          includes_str (toLowerCase ''Unauthenticated.'') ''auth'')" by blast
  from auth_failure_single_attempt [OF a1(1,2,3) d1 online_env_random a1(5,6), of "''grief''"]
  have c1: "\<exists>run. generateKhutba ?e1 ''grief'' = Inr run \<and>
      fetch_calls run = 1 \<and> errorType (returned run) = Some Auth" by blast
  from auth_failure_single_attempt [OF a2(1,2,3) d2 online_env_random a2(5,6), of "''grief''"]
  have c2: "\<exists>run. generateKhutba ?e2 ''grief'' = Inr run \<and>
      fetch_calls run = 1 \<and> errorType (returned run) = Some Auth" by blast
  from a1(4) c1 a2(4) m c2 show ?thesis by blast
qed

subsection \<open>Which failed responses are retried\<close>

text \<open>
  Claim C5 says that a response that is not ok and is no authentication failure is sent
  again while attempts remain. A plain 500 with the body \<^verbatim>\<open>oops\<close> is not: one call of
  \<^verbatim>\<open>fetch\<close> is made and the fallback sermon comes back with the error type \<open>Server\<close>.
\<close>

theorem plain_500_not_retried_counterexample:
  "\<not> ok (error_response 500 ''Internal Server Error'' ''oops'') \<and>
   \<not> auth_response (error_response 500 ''Internal Server Error'' ''oops'') ''oops'' \<and>
   \<not> isl (generateKhutba (online_env (always (Responded (error_response 500 ''Internal Server Error'' ''oops'')))) ''grief'') \<and>
   fetch_calls (projr (generateKhutba (online_env (always (Responded (error_response 500 ''Internal Server Error'' ''oops'')))) ''grief'')) = 1 \<and>
   caught (projr (generateKhutba (online_env (always (Responded (error_response 500 ''Internal Server Error'' ''oops'')))) ''grief'')) =
     Some (JsError ''Server responded with 500: Internal Server Error. oops'') \<and>
   errorType (returned (projr (generateKhutba (online_env (always (Responded (error_response 500 ''Internal Server Error'' ''oops'')))) ''grief''))) = Some Server"
  by code_simp

text \<open>
  Claim C5, as the code has it. A first response that is not ok and is no authentication
  failure throws the message \<open>server_message r b\<close>. The request is sent again exactly when
  that message contains a network marker and none of the authentication markers of the
  inner handler; otherwise the single attempt ends in the fallback path.
\<close>

theorem failed_response_retry:
  assumes "isOnline e"
    and "fetch e 0 = Responded r"
    and "\<not> ok r"
    and "body_text r = Inr b"
    and "\<not> auth_response r b"
    and "binary64 (random e) = random e" and "0 \<le> random e" and "random e < 1"
  shows "\<exists>run. generateKhutba e purp = Inr run \<and>
           (if retryable (server_message r b) then 2 \<le> fetch_calls run
            else fetch_calls run = 1 \<and> caught run = Some (JsError (server_message r b)) \<and>
                 errorType (returned run) = Some (classify (JsError (server_message r b))))"
proof -
  let ?m = "server_message r b"
  have att: "attempt purp (fetch e (calls init_state)) = Inl (JsError ?m)"
    using attempt_not_ok [OF assms(3,4), of purp] assms(2,5) by (simp add: init_state_def)
  have cm: "caught_message (JsError ?m) = ?m" by (simp add: caught_message_def)
  have le: "retryCount init_state \<le> maxRetries" by (simp add: init_state_def)
  have tb: "try_block e purp = retry_loop (fetch e) purp init_state"
    using assms(1) by (simp add: try_block_def)
  from generateKhutba_returns [OF assms(6-8), of purp]
  obtain run where run: "generateKhutba e purp = Inr run"
    and calls: "fetch_calls run = calls (snd (try_block e purp))"
    and fail: "\<And>err st. try_block e purp = (Inl err, st) \<Longrightarrow>
                 caught run = Some err \<and> errorType (returned run) = Some (classify err)"
    by blast
  show ?thesis
  proof (cases "retryable ?m")
    case True
    then have na: "\<not> auth_message (caught_message (JsError ?m))"
      and net: "isNetworkError (caught_message (JsError ?m))"
      by (simp_all add: retryable_def cm)
    define st2 where "st2 = init_state\<lparr>calls := calls init_state + 1,
        lastError := Some (caught_message (JsError ?m)),
        retryCount := retryCount init_state + 1,
        waits := waits init_state @ [1000 * 2 ^ (retryCount init_state + 1)]\<rparr>"
    have lt: "retryCount init_state < maxRetries" by (simp add: init_state_def maxRetries_def)
    have step: "retry_loop (fetch e) purp init_state = retry_loop (fetch e) purp st2"
      unfolding st2_def
      by (rule retry_loop_retry [where f = "fetch e" and st = init_state and purp = purp,
            OF lt att na net])
    obtain res st' where rl: "retry_loop (fetch e) purp st2 = (res, st')"
      by (cases "retry_loop (fetch e) purp st2")
    have i: "retryCount st2 \<le> maxRetries" "calls st2 = retryCount st2"
      "waits st2 = map (\<lambda>n. 1000 * 2 ^ (n + 1)) [0..<retryCount st2]"
      by (simp_all add: st2_def init_state_def maxRetries_def)
    from retry_loop_inv [OF rl i] have "2 \<le> calls st'" by (simp add: st2_def init_state_def)
    with calls tb step rl True run show ?thesis by auto
  next
    case False
    have "try_block e purp =
        (Inl (JsError ?m), init_state\<lparr>calls := calls init_state + 1, lastError := Some ?m\<rparr>)"
    proof (cases "auth_message ?m")
      case True
      then have "auth_message (caught_message (JsError ?m))" by (simp add: cm)
      from retry_loop_auth [where f = "fetch e" and st = init_state and purp = purp,
          OF le att this] tb
      show ?thesis by (simp add: cm)
    next
      case na: False
      with False have "\<not> isNetworkError ?m" by (simp add: retryable_def)
      then have nr: "\<not> (isNetworkError (caught_message (JsError ?m)) \<and>
                        retryCount init_state < maxRetries)" by (simp add: cm)
      from na have "\<not> auth_message (caught_message (JsError ?m))" by (simp add: cm)
      from retry_loop_throw [where f = "fetch e" and st = init_state and purp = purp,
          OF le att this nr] tb
      show ?thesis by (simp add: cm)
    qed
    with fail calls False run show ?thesis by (auto simp: init_state_def)
  qed
qed


theorem failed_response_retry_witness:
  "\<not> ok (error_response 504 ''Gateway Timeout'' ''upstream request timed out'') \<and>
   retryable (server_message (error_response 504 ''Gateway Timeout'' ''upstream request timed out'')
                ''upstream request timed out'') \<and>
   (\<exists>run. generateKhutba (online_env (always (Responded (error_response 504 ''Gateway Timeout'' ''upstream request timed out'')))) ''grief'' = Inr run \<and>
      2 \<le> fetch_calls run) \<and>
   \<not> retryable (server_message (error_response 500 ''Internal Server Error'' ''oops'') ''oops'') \<and>
   (\<exists>run. generateKhutba (online_env (always (Responded (error_response 500 ''Internal Server Error'' ''oops'')))) ''grief'' = Inr run \<and>
      fetch_calls run = 1 \<and> errorType (returned run) = Some Server)"
proof -
  let ?r1 = "error_response 504 ''Gateway Timeout'' ''upstream request timed out''"
  let ?e1 = "online_env (always (Responded ?r1))"
  let ?r2 = "error_response 500 ''Internal Server Error'' ''oops''"
  let ?e2 = "online_env (always (Responded ?r2))"
  have a1: "isOnline ?e1" "fetch ?e1 0 = Responded ?r1" "\<not> ok ?r1"
    "body_text ?r1 = Inr ''upstream request timed out''" "0 \<le> random ?e1" "random ?e1 < 1"
    by (simp_all add: isOnline_def online_env_def always_def error_response_def ok_def)
  have n1: "\<not> auth_response ?r1 ''upstream request timed out''" by code_simp
  have r1: "retryable (server_message ?r1 ''upstream request timed out'')" by code_simp
  have a2: "isOnline ?e2" "fetch ?e2 0 = Responded ?r2" "\<not> ok ?r2"
    "body_text ?r2 = Inr ''oops''" "0 \<le> random ?e2" "random ?e2 < 1"
    by (simp_all add: isOnline_def online_env_def always_def error_response_def ok_def)
  have n2: "\<not> auth_response ?r2 ''oops''" by code_simp
  have r2: "\<not> retryable (server_message ?r2 ''oops'')" by code_simp
  have s2: "classify (JsError (server_message ?r2 ''oops'')) = Server" by code_simp
  from failed_response_retry [OF a1(1,2,3,4) n1 online_env_random a1(5,6), of "''grief''"] r1
  have c1: "\<exists>run. generateKhutba ?e1 ''grief'' = Inr run \<and> 2 \<le> fetch_calls run" by auto
  from failed_response_retry [OF a2(1,2,3,4) n2 online_env_random a2(5,6), of "''grief''"] r2 s2
  have c2: "\<exists>run. generateKhutba ?e2 ''grief'' = Inr run \<and>
      fetch_calls run = 1 \<and> errorType (returned run) = Some Server" by auto
  from a1(3) r1 c1 r2 c2 show ?thesis by blast
qed

subsection \<open>The delays between attempts\<close>

text \<open>
  Claim C6 gives 1000 ms before the first retry and 2000 ms before the second. With two
  rejected calls and then a success, the loop sleeps 2000 ms and then 4000 ms: the counter is
  incremented before the delay is computed from it.
\<close>

theorem backoff_2000_4000_counterexample:
  "retryable ''Failed to fetch'' \<and>
   \<not> isl (generateKhutba (online_env (flaky (Responded (ok_response (payload (Some ''foo.wav'')))))) ''grief'') \<and>
   fetch_calls (projr (generateKhutba (online_env (flaky (Responded (ok_response (payload (Some ''foo.wav'')))))) ''grief'')) = 3 \<and>
   backoff_waits (projr (generateKhutba (online_env (flaky (Responded (ok_response (payload (Some ''foo.wav'')))))) ''grief'')) = [2000, 4000] \<and>
   backoff_waits (projr (generateKhutba (online_env (flaky (Responded (ok_response (payload (Some ''foo.wav'')))))) ''grief'')) ! 0 \<noteq> 1000 * 2 ^ 0"
  by code_simp

text \<open>
  Claim C6, as the code has it. In every run the delay before retry number \<open>n\<close>, counted from
  0, is \<open>1000 * 2 ^ (n + 1)\<close> milliseconds: 2000 before the first retry and 4000 before the
  second. There is one delay before each call of \<^verbatim>\<open>fetch\<close> after the first, and there are at
  most three calls.
\<close>

theorem backoff_delays:
  assumes "generateKhutba e purp = Inr run"
  shows "backoff_waits run = map (\<lambda>n. 1000 * 2 ^ (n + 1)) [0..<fetch_calls run - 1] \<and>
         fetch_calls run \<le> 3 \<and>
         (backoff_waits run = [] \<or> backoff_waits run = [2000] \<or>
          backoff_waits run = [2000, 4000])"
proof -
  from generateKhutba_Inr [OF assms]
  have fc: "fetch_calls run = calls (snd (try_block e purp))"
    and bw: "backoff_waits run = waits (snd (try_block e purp))" by simp_all
  have "waits (snd (try_block e purp)) =
          map (\<lambda>n. 1000 * 2 ^ (n + 1)) [0..<calls (snd (try_block e purp)) - 1] \<and>
        calls (snd (try_block e purp)) \<le> 3"
  proof (cases "isOnline e")
    case False
    then show ?thesis by (simp add: try_block_def init_state_def)
  next
    case True
    obtain res st' where rl: "retry_loop (fetch e) purp init_state = (res, st')"
      by (cases "retry_loop (fetch e) purp init_state")
    have i: "retryCount init_state \<le> maxRetries" "calls init_state = retryCount init_state"
      "waits init_state = map (\<lambda>n. 1000 * 2 ^ (n + 1)) [0..<retryCount init_state]"
      by (simp_all add: init_state_def)
    from retry_loop_inv [OF rl i] True rl show ?thesis
      by (simp add: try_block_def maxRetries_def)
  qed
  with fc bw have m: "backoff_waits run = map (\<lambda>n. 1000 * 2 ^ (n + 1)) [0..<fetch_calls run - 1]"
    and le: "fetch_calls run \<le> 3" by simp_all
  from le have "fetch_calls run - 1 = 0 \<or> fetch_calls run - 1 = 1 \<or> fetch_calls run - 1 = 2"
    by auto
  then have "backoff_waits run = [] \<or> backoff_waits run = [2000] \<or>
          backoff_waits run = [2000, 4000]"
    using m by (auto simp: upt_rec)
  with m le show ?thesis by simp
qed

theorem backoff_delays_witness:
  "\<exists>run. generateKhutba (online_env (flaky (Responded (ok_response (payload (Some ''foo.wav'')))))) ''grief'' = Inr run \<and>
     backoff_waits run = [1000 * 2 ^ (0 + 1), 1000 * 2 ^ (1 + 1)] \<and> fetch_calls run = 3"
proof -
  let ?e = "online_env (flaky (Responded (ok_response (payload (Some ''foo.wav'')))))"
  have r: "\<not> isl (generateKhutba ?e ''grief'')" by code_simp
  have c: "fetch_calls (projr (generateKhutba ?e ''grief'')) = 3" by code_simp
  from r obtain run where run: "generateKhutba ?e ''grief'' = Inr run"
    by (cases "generateKhutba ?e ''grief''") simp_all
  with c have c': "fetch_calls run = 3" by simp
  from backoff_delays [OF run] c' have "backoff_waits run = map (\<lambda>n. 1000 * 2 ^ (n + 1)) [0..<2]"
    by simp
  then have "backoff_waits run = [1000 * 2 ^ (0 + 1), 1000 * 2 ^ (1 + 1)]"
    by (simp add: upt_rec)
  with run c' show ?thesis by blast
qed

subsection \<open>Offline\<close>

lemma classify_network_offline: "classify (JsError ''network_offline'') = Network"
  by (simp add: classify_def)

text \<open>
  Claim C7. For every purpose, when the connectivity probe reports offline (with
  \<^verbatim>\<open>Math.random\<close> drawing a binary64 number from its interval), \<open>generateKhutba\<close> calls
  \<^verbatim>\<open>fetch\<close> not once and returns a fallback sermon whose error type is \<open>Network\<close> and whose
  title is the title of an entry of the table, then \<^verbatim>\<open> - \<close>, then the purpose with its first
  character put in upper case by the engine's \<^verbatim>\<open>toUpperCase\<close>, whatever that mapping does to
  the character.
\<close>

theorem offline_fallback:
  assumes "\<not> isOnline e"
    and "binary64 (random e) = random e" and "0 \<le> random e" and "random e < 1"
  shows "\<exists>run i. generateKhutba e purp = Inr run \<and> fetch_calls run = 0 \<and>
           caught run = Some (JsError ''network_offline'') \<and>
           errorType (returned run) = Some Network \<and>
           i < length sampleSermons \<and> int i = randomIndex (random e) \<and>
           title (returned run) =
             title (sampleSermons ! i) @ '' - '' @ toUpperCase e (charAt0 purp) @ slice1 purp"
proof -
  from assms(1) have tb: "try_block e purp = (Inl (JsError ''network_offline''), init_state)"
    by (simp add: try_block_def)
  from fallback_returns [OF assms(2-4), of "toUpperCase e" purp Network]
  obtain i where i: "i < 3" "randomIndex (random e) = int i"
    and fb: "fallback (toUpperCase e) (random e) purp Network =
        Inr ((sampleSermons ! i)
               \<lparr>title := title (sampleSermons ! i) @ '' - '' @ capitalizedPurpose (toUpperCase e) purp,
                purpose := Some purp, errorType := Some Network\<rparr>)"
    by blast
  let ?run = "\<lparr>returned = (sampleSermons ! i)
               \<lparr>title := title (sampleSermons ! i) @ '' - '' @ capitalizedPurpose (toUpperCase e) purp,
                purpose := Some purp, errorType := Some Network\<rparr>,
             fetch_calls = calls init_state, backoff_waits = waits init_state,
             caught = Some (JsError ''network_offline'')\<rparr>"
  have "generateKhutba e purp = Inr ?run"
    using tb fb classify_network_offline by (simp add: generateKhutba_def)
  with i show ?thesis
    by (intro exI [of _ ?run] exI [of _ i])
       (simp add: init_state_def length_sampleSermons capitalizedPurpose_def)
qed

theorem offline_fallback_witness:
  "\<not> isOnline offline_env \<and> binary64 (random offline_env) = random offline_env \<and>
   0 \<le> random offline_env \<and> random offline_env < 1 \<and>
   (\<exists>run. generateKhutba offline_env ''grief'' = Inr run \<and> fetch_calls run = 0 \<and>
      errorType (returned run) = Some Network \<and>
      title (returned run) =
        ''Managing Anger: The Islamic Approach to Emotional Control - Grief'') \<and>
   (\<exists>run. generateKhutba offline_env (CHR 0xDF # ''eta'') = Inr run \<and> fetch_calls run = 0 \<and>
      errorType (returned run) = Some Network \<and>
      title (returned run) =
        ''Managing Anger: The Islamic Approach to Emotional Control - SSeta'') \<and>
   (\<exists>run. generateKhutba offline_env (CHR 0xE9 # ''lan'') = Inr run \<and> fetch_calls run = 0 \<and>
      errorType (returned run) = Some Network \<and>
      title (returned run) =
        ''Managing Anger: The Islamic Approach to Emotional Control - '' @ CHR 0xC9 # ''lan'')"
proof -
  have o: "\<not> isOnline offline_env" by (simp add: isOnline_def offline_env_def)
  have h: "binary64 (random offline_env) = random offline_env" "0 \<le> random offline_env"
    "random offline_env < 1"
    by code_simp+
  have t1: "title (returned (projr (generateKhutba offline_env ''grief''))) =
      ''Managing Anger: The Islamic Approach to Emotional Control - Grief''"
    by code_simp
  have t2: "title (returned (projr (generateKhutba offline_env (CHR 0xDF # ''eta'')))) =
      ''Managing Anger: The Islamic Approach to Emotional Control - SSeta''"
    by code_simp
  have t3: "title (returned (projr (generateKhutba offline_env (CHR 0xE9 # ''lan'')))) =
      ''Managing Anger: The Islamic Approach to Emotional Control - '' @ CHR 0xC9 # ''lan''"
    by code_simp
  from offline_fallback [OF o h, of "''grief''"]
  obtain r1 where r1: "generateKhutba offline_env ''grief'' = Inr r1" "fetch_calls r1 = 0"
    "errorType (returned r1) = Some Network" by blast
  from offline_fallback [OF o h, of "CHR 0xDF # ''eta''"]
  obtain r2 where r2: "generateKhutba offline_env (CHR 0xDF # ''eta'') = Inr r2"
    "fetch_calls r2 = 0" "errorType (returned r2) = Some Network" by blast
  from offline_fallback [OF o h, of "CHR 0xE9 # ''lan''"]
  obtain r3 where r3: "generateKhutba offline_env (CHR 0xE9 # ''lan'') = Inr r3"
    "fetch_calls r3 = 0" "errorType (returned r3) = Some Network" by blast
  from r1 t1 have c1: "\<exists>run. generateKhutba offline_env ''grief'' = Inr run \<and> fetch_calls run = 0 \<and>
      errorType (returned run) = Some Network \<and>
      title (returned run) =
        ''Managing Anger: The Islamic Approach to Emotional Control - Grief''"
    by (intro exI [of _ r1]) simp
  from r2 t2 have c2: "\<exists>run. generateKhutba offline_env (CHR 0xDF # ''eta'') = Inr run \<and>
      fetch_calls run = 0 \<and> errorType (returned run) = Some Network \<and>
      title (returned run) =
        ''Managing Anger: The Islamic Approach to Emotional Control - SSeta''"
    by (intro exI [of _ r2]) simp
  from r3 t3 have c3: "\<exists>run. generateKhutba offline_env (CHR 0xE9 # ''lan'') = Inr run \<and>
      fetch_calls run = 0 \<and> errorType (returned run) = Some Network \<and>
      title (returned run) =
        ''Managing Anger: The Islamic Approach to Emotional Control - '' @ CHR 0xC9 # ''lan''"
    by (intro exI [of _ r3]) simp
  from o h c1 c2 c3 show ?thesis by blast
qed

subsection \<open>The fallback sermon and the table\<close>

text \<open>
  Claim C9. The table has three entries. On every failure path (the \<^verbatim>\<open>try\<close> block ends in an
  error \<open>err\<close>, with \<^verbatim>\<open>Math.random\<close> drawing a binary64 number \<open>x\<close> from its interval) the
  returned sermon is built from the entry at the index \<^verbatim>\<open>Math.floor(x * 3)\<close>, the product
  being the binary64 product, and this index lies in 0, 1, 2. The sermon's text, \<^verbatim>\<open>audio_url\<close>
  and \<^verbatim>\<open>fullAudioUrl\<close> are those of the entry, and it differs from the entry only in the title
  (the entry's title, \<^verbatim>\<open> - \<close>, the purpose with its first character put in upper case by the
  engine), the purpose and the error type. How the draws are distributed is a property of
  \<^verbatim>\<open>Math.random\<close>, not of this function.
\<close>

theorem fallback_from_table:
  assumes "try_block e purp = (Inl err, st)"
    and "binary64 (random e) = random e" and "0 \<le> random e" and "random e < 1"
  shows "length sampleSermons = 3 \<and>
         (\<exists>run i. generateKhutba e purp = Inr run \<and> caught run = Some err \<and>
            i < 3 \<and> int i = \<lfloor>binary64 (random e * 3)\<rfloor> \<and>
            returned run =
              (sampleSermons ! i)
                \<lparr>title := title (sampleSermons ! i) @ '' - '' @ toUpperCase e (charAt0 purp) @ slice1 purp,
                 purpose := Some purp, errorType := Some (classify err)\<rparr> \<and>
            sermon_text (returned run) = sermon_text (sampleSermons ! i) \<and>
            audio_url (returned run) = audio_url (sampleSermons ! i) \<and>
            fullAudioUrl (returned run) = fullAudioUrl (sampleSermons ! i))"
proof -
  from fallback_returns [OF assms(2-4), of "toUpperCase e" purp "classify err"]
  obtain i where i: "i < 3" "randomIndex (random e) = int i"
    and fb: "fallback (toUpperCase e) (random e) purp (classify err) =
        Inr ((sampleSermons ! i)
               \<lparr>title := title (sampleSermons ! i) @ '' - '' @ capitalizedPurpose (toUpperCase e) purp,
                purpose := Some purp, errorType := Some (classify err)\<rparr>)"
    by blast
  let ?s = "(sampleSermons ! i)
               \<lparr>title := title (sampleSermons ! i) @ '' - '' @ capitalizedPurpose (toUpperCase e) purp,
                purpose := Some purp, errorType := Some (classify err)\<rparr>"
  let ?run = "\<lparr>returned = ?s, fetch_calls = calls st, backoff_waits = waits st,
             caught = Some err\<rparr>"
  have g: "generateKhutba e purp = Inr ?run"
    using assms(1) fb by (simp add: generateKhutba_def)
  have ix: "int i = \<lfloor>binary64 (random e * 3)\<rfloor>"
    using i(2) by (simp add: randomIndex_def length_sampleSermons)
  have "\<exists>run i. generateKhutba e purp = Inr run \<and> caught run = Some err \<and>
            i < 3 \<and> int i = \<lfloor>binary64 (random e * 3)\<rfloor> \<and>
            returned run =
              (sampleSermons ! i)
                \<lparr>title := title (sampleSermons ! i) @ '' - '' @ toUpperCase e (charAt0 purp) @ slice1 purp,
                 purpose := Some purp, errorType := Some (classify err)\<rparr> \<and>
            sermon_text (returned run) = sermon_text (sampleSermons ! i) \<and>
            audio_url (returned run) = audio_url (sampleSermons ! i) \<and>
            fullAudioUrl (returned run) = fullAudioUrl (sampleSermons ! i)"
    using g i(1) ix
    by (intro exI [of _ ?run] exI [of _ i]) (simp add: capitalizedPurpose_def)
  with length_sampleSermons show ?thesis by simp
qed

theorem fallback_from_table_witness:
  "fst (try_block (online_env (always (Rejected NonError))) ''grief'') = Inl (JsError ''Unknown error'') \<and>
   \<lfloor>binary64 (random (online_env (always (Rejected NonError))) * 3)\<rfloor> = 1 \<and>
   (\<exists>run. generateKhutba (online_env (always (Rejected NonError))) ''grief'' = Inr run \<and>
      returned run =
        (sampleSermons ! 1)
          \<lparr>title := ''Managing Anger: The Islamic Approach to Emotional Control - Grief'',
           purpose := Some ''grief'', errorType := Some Other\<rparr>) \<and>
   fst (try_block tie_env (CHR 0xDF # ''eta'')) = Inl (JsError ''network_offline'') \<and>
   \<lfloor>random tie_env * 3\<rfloor> = 1 \<and> \<lfloor>binary64 (random tie_env * 3)\<rfloor> = 2 \<and>
   (\<exists>run. generateKhutba tie_env (CHR 0xDF # ''eta'') = Inr run \<and>
      returned run =
        (sampleSermons ! 2)
          \<lparr>title := ''The Power of Gratitude in Islamic Tradition - SSeta'',
           purpose := Some (CHR 0xDF # ''eta''), errorType := Some Network\<rparr>)"
proof -
  let ?e = "online_env (always (Rejected NonError))"
  let ?p = "CHR 0xDF # ''eta''"
  have t: "fst (try_block ?e ''grief'') = Inl (JsError ''Unknown error'')" by code_simp
  then obtain st where tb: "try_block ?e ''grief'' = (Inl (JsError ''Unknown error''), st)"
    by (cases "try_block ?e ''grief''") simp
  have h: "binary64 (random ?e) = random ?e" "0 \<le> random ?e" "random ?e < 1" by code_simp+
  have f: "\<lfloor>binary64 (random ?e * 3)\<rfloor> = 1" by code_simp
  have c: "classify (JsError ''Unknown error'') = Other" by code_simp
  have u: "title (sampleSermons ! 1) @ '' - '' @ toUpperCase ?e (charAt0 ''grief'') @ slice1 ''grief'' =
      ''Managing Anger: The Islamic Approach to Emotional Control - Grief''" by code_simp
  have t': "fst (try_block tie_env ?p) = Inl (JsError ''network_offline'')" by code_simp
  then obtain st' where tb': "try_block tie_env ?p = (Inl (JsError ''network_offline''), st')"
    by (cases "try_block tie_env ?p") simp
  have h': "binary64 (random tie_env) = random tie_env" "0 \<le> random tie_env"
    "random tie_env < 1" by code_simp+
  have f': "\<lfloor>binary64 (random tie_env * 3)\<rfloor> = 2" by code_simp
  have q': "\<lfloor>random tie_env * 3\<rfloor> = 1" by code_simp
  have c': "classify (JsError ''network_offline'') = Network" by (rule classify_network_offline)
  have u': "title (sampleSermons ! 2) @ '' - '' @ toUpperCase tie_env (charAt0 ?p) @ slice1 ?p =
      ''The Power of Gratitude in Islamic Tradition - SSeta''" by code_simp
  from fallback_from_table [OF tb h] f c u
  have c1: "\<exists>run. generateKhutba ?e ''grief'' = Inr run \<and>
      returned run =
        (sampleSermons ! 1)
          \<lparr>title := ''Managing Anger: The Islamic Approach to Emotional Control - Grief'',
           purpose := Some ''grief'', errorType := Some Other\<rparr>"
    by auto
  from fallback_from_table [OF tb' h'] f' c' u'
  have c2: "\<exists>run. generateKhutba tie_env ?p = Inr run \<and>
      returned run =
        (sampleSermons ! 2)
          \<lparr>title := ''The Power of Gratitude in Islamic Tradition - SSeta'',
           purpose := Some ?p, errorType := Some Network\<rparr>"
    by auto
  from t f c1 t' q' f' c2 show ?thesis by blast
qed

end
